theory Spec2Isabelle
  imports Complex_Main
begin

section \<open>The store behind \<open>main.py\<close>\<close>

text \<open>
  \<open>main.py\<close> keeps all of its state in one SQLite file.  \<open>init_db\<close> creates three tables
  (\<open>users\<close>, \<open>favourites\<close>, \<open>shared_recipes\<close>), each with an \<open>INTEGER PRIMARY KEY
  AUTOINCREMENT\<close> column; the fourth table, \<open>recepti\<close>, is expected to be in the file already
  and is only read.  A table is a list of rows, in insertion order.
\<close>

record user =
  user_id :: int
  username :: string
  password_hash :: string

record favourite =
  fav_id :: int
  fav_user_id :: int
  fav_recipe_id :: int

record share =
  share_id :: int
  sender_id :: int
  receiver_id :: int
  share_recipe_id :: int

text \<open>
  A Python \<open>str\<close> and an SQLite TEXT value are modelled by their UTF-8 bytes, a \<open>bytes\<close>
  object and a BLOB by their bytes.  What \<open>sqlite3\<close> hands to Python for one column of a
  row is one of SQLite's five kinds of value.
\<close>

datatype sqlvalue = SqlNull | SqlInteger int | SqlReal real | SqlText string | SqlBlob string

text \<open>
  The columns of \<open>recepti\<close> that the program reads.  The table comes from outside, so
  \<open>slika\<close>, meant to be an image blob that may be absent, can hold any value; \<open>besede\<close> and
  \<open>leme\<close> are the two text columns of the search, taken to hold no NUL character.
\<close>

record recipe =
  recipe_id :: int
  naziv_dat :: string
  slika :: sqlvalue
  besede :: string
  leme :: string

text \<open>
  \<open>openable\<close> says whether \<open>sqlite3.connect(DB_PATH)\<close> succeeds.  \<open>recepti\<close> is \<open>None\<close> when
  the table is missing from the file (\<open>init_db\<close> does not create it).  The \<open>_seq\<close> fields are
  the \<open>sqlite_sequence\<close> entries of the three AUTOINCREMENT tables: the largest row id ever
  handed out.
\<close>

record store =
  openable :: bool
  users :: "user list"
  users_seq :: int
  favourites :: "favourite list"
  favourites_seq :: int
  shared_recipes :: "share list"
  shared_seq :: int
  recepti :: "recipe list option"

text \<open>The exceptions of the Python program that the model distinguishes.\<close>

datatype error =
  OperationalError | IntegrityError | OverflowError | PasswordSizeError | TypeError
  | UnicodeEncodeError

text \<open>
  Counting the characters of a text in UTF-8: every byte that is not a continuation byte
  (\<open>10xxxxxx\<close>) starts one.  \<open>py_len\<close> is Python's \<open>len\<close> of a \<open>str\<close>; \<open>skip_char\<close> drops
  the first character, that is a byte and, after a lead byte of a longer sequence, the
  continuation bytes that follow it.
\<close>

definition is_cont :: "char \<Rightarrow> bool" where
  "is_cont c \<longleftrightarrow> (let n = (of_char c :: nat) in 128 \<le> n \<and> n < 192)"

definition py_len :: "string \<Rightarrow> nat" where
  "py_len t = length (filter (\<lambda>c. \<not> is_cont c) t)"

definition skip_char :: "string \<Rightarrow> string" where
  "skip_char t =
     (case t of
        [] \<Rightarrow> []
      | c # cs \<Rightarrow> if 192 \<le> (of_char c :: nat) then dropWhile is_cont cs else cs)"

text \<open>
  A Python \<open>int\<close> is unbounded, an SQLite INTEGER has 64 bits: binding a larger value as a
  statement parameter raises \<open>OverflowError\<close> before the statement runs.
\<close>

definition sqlite_int :: "int \<Rightarrow> bool" where
  "sqlite_int i \<longleftrightarrow> - (2 ^ 63) \<le> i \<and> i < 2 ^ 63"

text \<open>
  AUTOINCREMENT: the new row id is one more than the largest id the table has ever held.
\<close>

definition next_rowid :: "int \<Rightarrow> int list \<Rightarrow> int" where
  "next_rowid seq ids = max seq (fold max ids 0) + 1"

subsection \<open>\<open>get_user_id\<close>\<close>

text \<open>
  \<open>SELECT id FROM users WHERE username=?\<close>, then \<open>fetchone\<close>: the first matching row, or
  \<open>None\<close>.  The connection is opened first, and a failure to open it propagates.
\<close>

definition get_user_id :: "string \<Rightarrow> store \<Rightarrow> error + int option" where
  "get_user_id name s =
     (if \<not> openable s then Inl OperationalError
      else Inr (map_option user_id (find (\<lambda>u. username u = name) (users s))))"

text \<open>
  The callers test the result with \<open>if not user_id\<close>, which is true for \<open>None\<close> and for
  the integer 0.
\<close>

section \<open>Recipe search\<close>

subsection \<open>The statement text\<close>

text \<open>
  \<open>search_recipes\<close> builds the statement with f-strings: each keyword is pasted twice into
  the text of a LIKE pattern, and the conjuncts are joined with \<open>" AND "\<close>.
\<close>

definition quote :: char where
  "quote = CHR 0x27"

definition pogoj :: "string \<Rightarrow> string" where
  "pogoj kw = ''(besede LIKE '' @ [quote] @ ''%'' @ kw @ ''%'' @ [quote] @
              '' OR leme LIKE '' @ [quote] @ ''%'' @ kw @ ''%'' @ [quote] @ '')''"

fun join :: "'a list \<Rightarrow> 'a list list \<Rightarrow> 'a list" where
  "join sep [] = []"
| "join sep [x] = x"
| "join sep (x # y # ys) = x @ sep @ join sep (y # ys)"

definition pogoji :: "string list \<Rightarrow> string" where
  "pogoji keywords = join '' AND '' (map pogoj keywords)"

definition search_sql :: "string list \<Rightarrow> string" where
  "search_sql keywords =
     ''\<newline>        SELECT DISTINCT id, naziv_dat, slika\<newline>        FROM recepti\<newline>        WHERE '' @
     pogoji keywords @ ''\<newline>    ''"

subsection \<open>What SQLite does with the text\<close>

text \<open>
  The statement is run by SQLite, which reads it as text.  The model reads it as text too:
  a lexer for the tokens the statement is made of, and a parser for statements of the shape
  \<open>SELECT DISTINCT id, naziv_dat, slika FROM recepti WHERE (besede LIKE 'p' OR leme LIKE 'q')
  AND ...\<close>.  A string literal starts at a single quote and ends at the next single quote
  that is not doubled; a doubled quote stands for one quote character inside the literal.
  Any text outside this fragment is handed to a parameter \<open>other\<close> that stands for the rest
  of SQLite, so every theorem below holds whatever SQLite does with such text.  SQLite's
  limits on the size of a statement, of a LIKE pattern and of an expression are not part
  of the model.
\<close>

datatype token = LParen | RParen | Comma | Word string | Str string

datatype lex_state = Idle | InWord string | InStr string | QuoteSeen string

definition word_char :: "char \<Rightarrow> bool" where
  "word_char c \<longleftrightarrow>
     (let n = (of_char c :: nat) in (65 \<le> n \<and> n \<le> 90) \<or> (97 \<le> n \<and> n \<le> 122) \<or> n = 95)"

definition sep_tokens :: "char \<Rightarrow> token list option" where
  "sep_tokens c =
     (if c = CHR '' '' \<or> c = CHR 0x0A then Some []
      else if c = CHR ''('' then Some [LParen]
      else if c = CHR '')'' then Some [RParen]
      else if c = CHR '','' then Some [Comma]
      else None)"

fun lex :: "lex_state \<Rightarrow> string \<Rightarrow> token list option" where
  "lex Idle [] = Some []"
| "lex (InWord w) [] = Some [Word w]"
| "lex (InStr t) [] = None"
| "lex (QuoteSeen t) [] = Some [Str t]"
| "lex Idle (c # cs) =
     (if c = quote then lex (InStr []) cs
      else if word_char c then lex (InWord [c]) cs
      else (case sep_tokens c of
              None \<Rightarrow> None
            | Some ts \<Rightarrow> map_option (\<lambda>r. ts @ r) (lex Idle cs)))"
| "lex (InWord w) (c # cs) =
     (if word_char c then lex (InWord (w @ [c])) cs
      else (case sep_tokens c of
              None \<Rightarrow> None
            | Some ts \<Rightarrow> map_option (\<lambda>r. Word w # ts @ r) (lex Idle cs)))"
| "lex (InStr t) (c # cs) =
     (if c = quote then lex (QuoteSeen t) cs
      else if c = CHR 0x00 then None
      else lex (InStr (t @ [c])) cs)"
| "lex (QuoteSeen t) (c # cs) =
     (if c = quote then lex (InStr (t @ [quote])) cs
      else (case sep_tokens c of
              None \<Rightarrow> None
            | Some ts \<Rightarrow> map_option (\<lambda>r. Str t # ts @ r) (lex Idle cs)))"

definition select_header :: "token list" where
  "select_header =
     [Word ''SELECT'', Word ''DISTINCT'', Word ''id'', Comma, Word ''naziv_dat'', Comma,
      Word ''slika'', Word ''FROM'', Word ''recepti'', Word ''WHERE'']"

definition conj_tokens :: "string \<Rightarrow> string \<Rightarrow> token list" where
  "conj_tokens p q =
     [LParen, Word ''besede'', Word ''LIKE'', Str p, Word ''OR'',
      Word ''leme'', Word ''LIKE'', Str q, RParen]"

definition conj_of :: "token list \<Rightarrow> (string \<times> string) option" where
  "conj_of toks =
     (if length toks = 9 then
        (case (toks ! 3, toks ! 7) of
           (Str p, Str q) \<Rightarrow> if toks = conj_tokens p q then Some (p, q) else None
         | _ \<Rightarrow> None)
      else None)"

fun split_and :: "token list \<Rightarrow> token list list" where
  "split_and [] = [[]]"
| "split_and (t # ts) =
     (if t = Word ''AND'' then [] # split_and ts
      else (case split_and ts of [] \<Rightarrow> [[t]] | g # gs \<Rightarrow> (t # g) # gs))"

definition parse_select :: "string \<Rightarrow> (string \<times> string) list option" where
  "parse_select sql =
     (case lex Idle sql of
        None \<Rightarrow> None
      | Some toks \<Rightarrow>
          if take 10 toks = select_header then those (map conj_of (split_and (drop 10 toks)))
          else None)"

text \<open>
  SQLite's LIKE: in the pattern \<open>%\<close> matches any run of characters, \<open>_\<close> matches any one
  character (of one or more bytes), and every other character matches itself, upper and
  lower case ASCII letters being equal.
\<close>

definition fold_case :: "char \<Rightarrow> nat" where
  "fold_case c = (let n = (of_char c :: nat) in if 65 \<le> n \<and> n \<le> 90 then n + 32 else n)"

function like :: "string \<Rightarrow> string \<Rightarrow> bool" where
  "like [] t = (t = [])"
| "like (p # ps) [] = (p = CHR ''%'' \<and> like ps [])"
| "like (p # ps) (c # cs) =
     (if p = CHR ''%'' then like ps (c # cs) \<or> like (p # ps) (skip_char (c # cs))
      else if p = CHR ''_'' then like ps (skip_char (c # cs))
      else fold_case p = fold_case c \<and> like ps cs)"
  by pat_completeness auto
termination
proof (relation "measure (\<lambda>(p, t). length p + length t)")
  show "wf (measure (\<lambda>(p, t). length p + length t))" by simp
next
  fix p :: char and ps
  show "((ps, []), p # ps, []) \<in> measure (\<lambda>(p, t). length p + length t)" by simp
next
  fix p :: char and ps c cs
  show "((ps, c # cs), p # ps, c # cs) \<in> measure (\<lambda>(p, t). length p + length t)" by simp
next
  fix p :: char and ps c cs
  have "length (dropWhile is_cont cs) \<le> length cs" by (rule length_dropWhile_le)
  then show "((p # ps, skip_char (c # cs)), p # ps, c # cs) \<in>
               measure (\<lambda>(p, t). length p + length t)"
    by (simp add: skip_char_def)
next
  fix p :: char and ps c cs
  have "length (dropWhile is_cont cs) \<le> length cs" by (rule length_dropWhile_le)
  then show "((ps, skip_char (c # cs)), p # ps, c # cs) \<in>
               measure (\<lambda>(p, t). length p + length t)"
    by (simp add: skip_char_def)
next
  fix p :: char and ps c cs
  show "((ps, cs), p # ps, c # cs) \<in> measure (\<lambda>(p, t). length p + length t)" by simp
qed

text \<open>The rows of the result: the three selected columns, duplicates removed.\<close>

type_synonym row = "sqlvalue \<times> sqlvalue \<times> sqlvalue"

definition select_columns :: "recipe \<Rightarrow> row" where
  "select_columns r = (SqlInteger (recipe_id r), SqlText (naziv_dat r), slika r)"

definition distinct_rows :: "row list \<Rightarrow> row list" where
  "distinct_rows rs = rev (remdups (rev rs))"

definition where_holds :: "(string \<times> string) list \<Rightarrow> recipe \<Rightarrow> bool" where
  "where_holds conds r = list_all (\<lambda>(p, q). like p (besede r) \<or> like q (leme r)) conds"

type_synonym engine = "string \<Rightarrow> recipe list option \<Rightarrow> error + row list"

definition execute_select :: "engine \<Rightarrow> string \<Rightarrow> recipe list option \<Rightarrow> error + row list" where
  "execute_select other sql tbl =
     (case parse_select sql of
        None \<Rightarrow> other sql tbl
      | Some conds \<Rightarrow>
          (case tbl of
             None \<Rightarrow> Inl OperationalError
           | Some rs \<Rightarrow> Inr (distinct_rows (map select_columns (filter (where_holds conds) rs)))))"

subsection \<open>\<open>search_recipes\<close>\<close>

record recipe_summary =
  rs_id :: sqlvalue
  rs_naziv :: sqlvalue
  rs_image :: string

text \<open>
  \<open>base64.b64encode\<close>: three bytes become four characters of the alphabet, and a last group
  of one or two bytes is padded with \<open>=\<close>.
\<close>

definition b64_alphabet :: string where
  "b64_alphabet = ''ABCDEFGHIJKLMNOPQRSTUVWXYZabcdefghijklmnopqrstuvwxyz0123456789+/''"

definition b64_char :: "nat \<Rightarrow> char" where
  "b64_char i = b64_alphabet ! (i mod 64)"

fun b64encode :: "string \<Rightarrow> string" where
  "b64encode [] = []"
| "b64encode [a] =
     (let n = of_char a * 65536
      in [b64_char (n div 262144), b64_char (n div 4096), CHR ''='', CHR ''=''])"
| "b64encode [a, b] =
     (let n = of_char a * 65536 + of_char b * 256
      in [b64_char (n div 262144), b64_char (n div 4096), b64_char (n div 64), CHR ''=''])"
| "b64encode (a # b # c # rest) =
     (let n = of_char a * 65536 + of_char b * 256 + of_char c
      in [b64_char (n div 262144), b64_char (n div 4096), b64_char (n div 64), b64_char n]
         @ b64encode rest)"

text \<open>
  The loop over the fetched rows.  \<open>if blob\<close> is Python's truth test: false for \<open>None\<close>, 0,
  0.0 and the empty \<open>str\<close> or \<open>bytes\<close>.  \<open>base64.b64encode\<close> takes bytes and raises
  \<open>TypeError\<close> for anything else.  \<open>if img_data\<close> is false for the empty string.
\<close>

definition truthy :: "sqlvalue \<Rightarrow> bool" where
  "truthy v =
     (case v of
        SqlNull \<Rightarrow> False
      | SqlInteger i \<Rightarrow> i \<noteq> 0
      | SqlReal x \<Rightarrow> x \<noteq> 0
      | SqlText t \<Rightarrow> t \<noteq> []
      | SqlBlob b \<Rightarrow> b \<noteq> [])"

definition summary :: "row \<Rightarrow> error + recipe_summary" where
  "summary r =
     (case r of (id_, naziv, blob) \<Rightarrow>
        if truthy blob then
          (case blob of
             SqlBlob b \<Rightarrow>
               let img_data = b64encode b
               in Inr \<lparr>rs_id = id_, rs_naziv = naziv,
                       rs_image =
                         (if img_data = [] then [] else ''data:image/png;base64,'' @ img_data)\<rparr>
           | _ \<Rightarrow> Inl TypeError)
        else Inr \<lparr>rs_id = id_, rs_naziv = naziv, rs_image = []\<rparr>)"

fun summaries :: "row list \<Rightarrow> error + recipe_summary list" where
  "summaries [] = Inr []"
| "summaries (r # rs) =
     (case summary r of
        Inl e \<Rightarrow> Inl e
      | Inr x \<Rightarrow> (case summaries rs of Inl e \<Rightarrow> Inl e | Inr xs \<Rightarrow> Inr (x # xs)))"

text \<open>
  The connection is opened before anything else, outside the \<open>try\<close>; only \<open>execute\<close> and
  \<open>fetchall\<close> are inside it, and any exception there leaves \<open>results = []\<close>.  The loop over
  the rows comes after the \<open>try\<close>.
\<close>

definition search_recipes :: "engine \<Rightarrow> string list \<Rightarrow> store \<Rightarrow> error + recipe_summary list" where
  "search_recipes other keywords s =
     (if \<not> openable s then Inl OperationalError
      else if keywords = [] then Inr []
      else
        let results = (case execute_select other (search_sql keywords) (recepti s) of
                         Inl e \<Rightarrow> []
                       | Inr rows \<Rightarrow> rows)
        in summaries results)"

section \<open>Favourites\<close>

definition is_favourite :: "int \<Rightarrow> int \<Rightarrow> favourite \<Rightarrow> bool" where
  "is_favourite uid rid f \<longleftrightarrow> fav_user_id f = uid \<and> fav_recipe_id f = rid"

text \<open>\<open>INSERT INTO favourites (user_id, recipe_id) VALUES (?, ?)\<close>, then \<open>commit\<close>.\<close>

definition insert_favourite :: "int \<Rightarrow> int \<Rightarrow> store \<Rightarrow> store" where
  "insert_favourite uid rid s =
     (let new_id = next_rowid (favourites_seq s) (map fav_id (favourites s))
      in s\<lparr>favourites := favourites s @ [\<lparr>fav_id = new_id, fav_user_id = uid, fav_recipe_id = rid\<rparr>],
           favourites_seq := new_id\<rparr>)"

text \<open>
  \<open>add_to_favourites\<close>: look the user up, return \<open>False\<close> when there is none, select the
  pair, return \<open>False\<close> when a row comes back, insert otherwise.  The recipe id is bound
  as a parameter of the SELECT, which is where a value beyond 64 bits raises.
\<close>

definition add_to_favourites :: "string \<Rightarrow> int \<Rightarrow> store \<Rightarrow> (error + bool) \<times> store" where
  "add_to_favourites name rid s =
     (case get_user_id name s of
        Inl e \<Rightarrow> (Inl e, s)
      | Inr v \<Rightarrow>
          (case v of
             None \<Rightarrow> (Inr False, s)
           | Some uid \<Rightarrow>
               if uid = 0 then (Inr False, s)
               else if \<not> openable s then (Inl OperationalError, s)
               else if \<not> sqlite_int rid then (Inl OverflowError, s)
               else if list_ex (is_favourite uid rid) (favourites s) then (Inr False, s)
               else (Inr True, insert_favourite uid rid s)))"

text \<open>
  \<open>remove_favourite\<close>: \<open>DELETE FROM favourites WHERE user_id=? AND recipe_id=?\<close>; the result
  is \<open>bool(c.rowcount)\<close>, the number of rows deleted being non-zero.
\<close>

definition remove_favourite :: "string \<Rightarrow> int \<Rightarrow> store \<Rightarrow> (error + bool) \<times> store" where
  "remove_favourite name rid s =
     (case get_user_id name s of
        Inl e \<Rightarrow> (Inl e, s)
      | Inr v \<Rightarrow>
          (case v of
             None \<Rightarrow> (Inr False, s)
           | Some uid \<Rightarrow>
               if uid = 0 then (Inr False, s)
               else if \<not> openable s then (Inl OperationalError, s)
               else if \<not> sqlite_int rid then (Inl OverflowError, s)
               else
                 let changed = length (filter (is_favourite uid rid) (favourites s))
                 in (Inr (changed \<noteq> 0),
                     s\<lparr>favourites := filter (\<lambda>f. \<not> is_favourite uid rid f) (favourites s)\<rparr>)))"

text \<open>
  \<open>get_user_favourites\<close>: \<open>recepti r JOIN favourites f ON f.recipe_id = r.id WHERE
  f.user_id=?\<close>, one result row for each pair of a recipe and a favourite that agree.  SQL
  leaves the order of the rows open; SQLite walks the user's favourites and looks each
  recipe up, which is the order taken here.
\<close>

definition get_user_favourites :: "string \<Rightarrow> store \<Rightarrow> error + (int \<times> string) list" where
  "get_user_favourites name s =
     (case get_user_id name s of
        Inl e \<Rightarrow> Inl e
      | Inr v \<Rightarrow>
          (case v of
             None \<Rightarrow> Inr []
           | Some uid \<Rightarrow>
               if uid = 0 then Inr []
               else if \<not> openable s then Inl OperationalError
               else
                 (case recepti s of
                    None \<Rightarrow> Inl OperationalError
                  | Some rs \<Rightarrow>
                      Inr (concat (map (\<lambda>f. map (\<lambda>r. (recipe_id r, naziv_dat r))
                                             (filter (\<lambda>r. recipe_id r = fav_recipe_id f) rs))
                                       (filter (\<lambda>f. fav_user_id f = uid) (favourites s)))))))"

section \<open>The routes\<close>

text \<open>
  A response is a status code, a JSON body and what happens to the \<open>username\<close> cookie.  A
  route that returns a plain dict answers with status 200.  An exception that leaves a
  route is the \<open>Inl\<close> of its result: the framework turns it into a generic server error.
\<close>

datatype json = JBool bool | JInt int | JStr string | JObj "(string \<times> json) list"

record response =
  status_code :: nat
  content :: json
  set_cookie :: "(string \<times> string) option"

definition json_response :: "nat \<Rightarrow> json \<Rightarrow> response" where
  "json_response code body = \<lparr>status_code = code, content = body, set_cookie = None\<rparr>"

text \<open>The three letters of the messages that are not ASCII, in UTF-8.\<close>

definition c_caron :: string where "c_caron = [CHR 0xC4, CHR 0x8D]"
definition s_caron :: string where "s_caron = [CHR 0xC5, CHR 0xA1]"
definition z_caron :: string where "z_caron = [CHR 0xC5, CHR 0xBE]"

subsection \<open>\<open>/api/register\<close>\<close>

text \<open>
  \<open>passlib\<close> checks the size of a password before it hashes or verifies it: more than 4096
  characters raise \<open>PasswordSizeError\<close>.
\<close>

definition validate_secret :: "string \<Rightarrow> error + unit" where
  "validate_secret password = (if 4096 < py_len password then Inl PasswordSizeError else Inr ())"

text \<open>
  \<open>argon2.hash\<close> draws a fresh salt at every call; the model takes the hash function and
  the salt of this call as parameters.  The hash is computed first, before the connection
  is opened and outside the \<open>try\<close>.  \<open>INSERT INTO users\<close> violates the UNIQUE constraint on
  \<open>username\<close> when a row with that name is there, which raises \<open>sqlite3.IntegrityError\<close>.
\<close>

definition insert_user :: "string \<Rightarrow> string \<Rightarrow> store \<Rightarrow> error + store" where
  "insert_user name pw_hash s =
     (if list_ex (\<lambda>u. username u = name) (users s) then Inl IntegrityError
      else
        let new_id = next_rowid (users_seq s) (map user_id (users s))
        in Inr (s\<lparr>users := users s @ [\<lparr>user_id = new_id, username = name, password_hash = pw_hash\<rparr>],
                  users_seq := new_id\<rparr>))"

definition register_ok :: response where
  "register_ok =
     json_response 200
       (JObj [(''success'', JBool True),
              (''message'', JStr (''Registracija uspe'' @ s_caron @ ''na. Prijavi se.''))])"

definition register_taken :: response where
  "register_taken =
     json_response 200
       (JObj [(''success'', JBool False),
              (''message'',
               JStr (''Uporabni'' @ s_caron @ ''ko ime '' @ z_caron @ ''e obstaja.''))])"

definition register ::
  "(string \<Rightarrow> string \<Rightarrow> string) \<Rightarrow> string \<Rightarrow> string \<Rightarrow> string \<Rightarrow> store \<Rightarrow> (error + response) \<times> store" where
  "register argon2_hash salt name password s =
     (case validate_secret password of
        Inl e \<Rightarrow> (Inl e, s)
      | Inr _ \<Rightarrow>
          let pw_hash = argon2_hash salt password
          in if \<not> openable s then (Inl OperationalError, s)
             else (case insert_user name pw_hash s of
                     Inr s' \<Rightarrow> (Inr register_ok, s')
                   | Inl e \<Rightarrow>
                       if e = IntegrityError then (Inr register_taken, s) else (Inl e, s)))"

subsection \<open>\<open>/api/login\<close>\<close>

text \<open>
  \<open>SELECT password_hash FROM users WHERE username=?\<close>, then the test
  \<open>user and argon2.verify(password, user[0])\<close>: \<open>argon2.verify\<close> is called only when the row
  is there, and then checks the size of the password first.  \<open>argon2_verify\<close> is the
  library's comparison of a password with a stored hash.
\<close>

definition stored_hash :: "string \<Rightarrow> store \<Rightarrow> string option" where
  "stored_hash name s = map_option password_hash (find (\<lambda>u. username u = name) (users s))"

definition credentials_ok ::
  "(string \<Rightarrow> string \<Rightarrow> bool) \<Rightarrow> string \<Rightarrow> string \<Rightarrow> store \<Rightarrow> error + bool" where
  "credentials_ok argon2_verify name password s =
     (case stored_hash name s of
        None \<Rightarrow> Inr False
      | Some h \<Rightarrow>
          (case validate_secret password of
             Inl e \<Rightarrow> Inl e
           | Inr _ \<Rightarrow> Inr (argon2_verify password h)))"

text \<open>
  \<open>set_cookie\<close> writes the cookie into a header, which is encoded as Latin-1: a username
  with a character beyond U+00FF (in UTF-8, a lead byte of \<open>0xC4\<close> or more) raises
  \<open>UnicodeEncodeError\<close>.
\<close>

definition latin1 :: "string \<Rightarrow> bool" where
  "latin1 t = list_all (\<lambda>c. (of_char c :: nat) < 196) t"

definition login_ok :: "string \<Rightarrow> response" where
  "login_ok name =
     \<lparr>status_code = 200, content = JObj [(''success'', JBool True)],
      set_cookie = Some (''username'', name)\<rparr>"

definition login_failed :: response where
  "login_failed =
     json_response 401
       (JObj [(''success'', JBool False),
              (''message'',
               JStr (''Napa'' @ c_caron @ ''no uporabni'' @ s_caron @ ''ko ime ali geslo.''))])"

definition login :: "(string \<Rightarrow> string \<Rightarrow> bool) \<Rightarrow> string \<Rightarrow> string \<Rightarrow> store \<Rightarrow> error + response" where
  "login argon2_verify name password s =
     (if \<not> openable s then Inl OperationalError
      else
        (case credentials_ok argon2_verify name password s of
           Inl e \<Rightarrow> Inl e
         | Inr ok \<Rightarrow>
             if ok then (if latin1 name then Inr (login_ok name) else Inl UnicodeEncodeError)
             else Inr login_failed))"

subsection \<open>\<open>/api/share_recipe\<close>\<close>

text \<open>
  \<open>get_current_username\<close> reads the \<open>username\<close> cookie; \<open>if not username\<close> is true when the
  cookie is missing or empty.
\<close>

definition get_current_username :: "string option \<Rightarrow> string option" where
  "get_current_username cookie = cookie"

definition not_logged_in :: response where
  "not_logged_in =
     json_response 401 (JObj [(''success'', JBool False), (''error'', JStr ''Ni prijave'')])"

definition receiver_missing :: response where
  "receiver_missing =
     json_response 200
       (JObj [(''success'', JBool False), (''error'', JStr ''Prejemnik ne obstaja.'')])"

definition share_ok :: response where
  "share_ok = json_response 200 (JObj [(''success'', JBool True)])"

text \<open>
  \<open>INSERT INTO shared_recipes (sender_id, receiver_id, recipe_id) VALUES (?, ?, ?)\<close>.  The
  parameters are bound first (a recipe id beyond 64 bits raises there); \<open>sender_id\<close> is
  declared NOT NULL, so Python's \<open>None\<close> in its place raises \<open>sqlite3.IntegrityError\<close>.
\<close>

definition insert_share :: "int option \<Rightarrow> int \<Rightarrow> int \<Rightarrow> store \<Rightarrow> error + store" where
  "insert_share sender receiver rid s =
     (if \<not> sqlite_int rid then Inl OverflowError
      else (case sender of
              None \<Rightarrow> Inl IntegrityError
            | Some sid \<Rightarrow>
                let new_id = next_rowid (shared_seq s) (map share_id (shared_recipes s))
                in Inr (s\<lparr>shared_recipes := shared_recipes s @
                            [\<lparr>share_id = new_id, sender_id = sid, receiver_id = receiver,
                              share_recipe_id = rid\<rparr>],
                          shared_seq := new_id\<rparr>)))"

record share_model =
  sm_recipe_id :: int
  sm_receiver :: string

definition api_share_recipe ::
  "share_model \<Rightarrow> string option \<Rightarrow> store \<Rightarrow> (error + response) \<times> store" where
  "api_share_recipe data cookie s =
     (case get_current_username cookie of
        None \<Rightarrow> (Inr not_logged_in, s)
      | Some name \<Rightarrow>
          if name = [] then (Inr not_logged_in, s)
          else
            (case get_user_id name s of
               Inl e \<Rightarrow> (Inl e, s)
             | Inr sender \<Rightarrow>
                 (case get_user_id (sm_receiver data) s of
                    Inl e \<Rightarrow> (Inl e, s)
                  | Inr v \<Rightarrow>
                      (case v of
                         None \<Rightarrow> (Inr receiver_missing, s)
                       | Some receiver \<Rightarrow>
                           if receiver = 0 then (Inr receiver_missing, s)
                           else if \<not> openable s then (Inl OperationalError, s)
                           else
                             (case insert_share sender receiver (sm_recipe_id data) s of
                                Inl e \<Rightarrow> (Inl e, s)
                              | Inr s' \<Rightarrow> (Inr share_ok, s'))))))"

section \<open>What the specification asks of the search\<close>

text \<open>
  The specification's reading of a search, word for word: a recipe is returned when, for
  every keyword, at least one of the two text columns contains the keyword as a substring.
  This definition is written from the specification, not from the code, and is only used to
  compare the two.
\<close>

fun contains :: "'a list \<Rightarrow> 'a list \<Rightarrow> bool" where
  "contains [] kw = (kw = [])"
| "contains (c # cs) kw = (take (length kw) (c # cs) = kw \<or> contains cs kw)"

definition spec_matches :: "string list \<Rightarrow> recipe \<Rightarrow> bool" where
  "spec_matches keywords r =
     list_all (\<lambda>kw. contains (besede r) kw \<or> contains (leme r) kw) keywords"

text \<open>
  What the code's LIKE patterns amount to for a keyword without LIKE wildcards: a substring
  test that takes upper and lower case ASCII letters as equal.  A keyword is \<open>plain\<close> when
  it has no single quote and no NUL character, so that pasting it into a string literal
  leaves the statement as the programmer meant it.  The UTF-8 bytes of a \<open>str\<close> never begin
  with a continuation byte, which is what \<open>utf8_start\<close> says.
\<close>

definition utf8_start :: "string \<Rightarrow> bool" where
  "utf8_start kw = (case kw of [] \<Rightarrow> True | c # cs \<Rightarrow> \<not> is_cont c)"

definition contains_ci :: "string \<Rightarrow> string \<Rightarrow> bool" where
  "contains_ci t kw = contains (map fold_case t) (map fold_case kw)"

definition plain :: "string \<Rightarrow> bool" where
  "plain kw \<longleftrightarrow> quote \<notin> set kw \<and> CHR 0x00 \<notin> set kw"

definition no_wildcard :: "string \<Rightarrow> bool" where
  "no_wildcard kw \<longleftrightarrow> CHR ''%'' \<notin> set kw \<and> CHR ''_'' \<notin> set kw"

definition pattern :: "string \<Rightarrow> string" where
  "pattern kw = ''%'' @ kw @ ''%''"

section \<open>A small store to run the program on\<close>

definition torta :: recipe where
  "torta = \<lparr>recipe_id = 7, naziv_dat = ''torta.txt'', slika = SqlBlob ''png'',
            besede = ''cokoladna torta z jajci'', leme = ''cokoladen torta z jajce''\<rparr>"

definition palacinke :: recipe where
  "palacinke = \<lparr>recipe_id = 8, naziv_dat = ''palacinke.txt'', slika = SqlNull,
                besede = ''palacinke moka mleko'', leme = ''palacinka moka mleko''\<rparr>"

definition demo_store :: store where
  "demo_store =
     \<lparr>openable = True,
      users = [\<lparr>user_id = 1, username = ''alice'', password_hash = ''h1''\<rparr>,
               \<lparr>user_id = 2, username = ''bob'', password_hash = ''h2''\<rparr>],
      users_seq = 2,
      favourites = [\<lparr>fav_id = 1, fav_user_id = 1, fav_recipe_id = 7\<rparr>],
      favourites_seq = 1,
      shared_recipes = [],
      shared_seq = 0,
      recepti = Some [torta, palacinke]\<rparr>"

text \<open>A stand-in for the rest of SQLite and one for \<open>argon2\<close>, to run the model with.\<close>

definition no_rows :: engine where
  "no_rows sql tbl = Inr []"

definition demo_hash :: "string \<Rightarrow> string \<Rightarrow> string" where
  "demo_hash salt password = salt @ ''$'' @ password"

definition demo_verify :: "string \<Rightarrow> string \<Rightarrow> bool" where
  "demo_verify password h \<longleftrightarrow> h = ''h1'' \<and> password = ''pw1'' \<or> h = ''h2'' \<and> password = ''pw2''"

text \<open>The store after \<open>carol\<close> has registered, and a password of 4097 characters.\<close>

definition carol_store :: store where
  "carol_store =
     demo_store\<lparr>users := users demo_store @
                   [\<lparr>user_id = 3, username = ''carol'', password_hash = ''s1$pw3''\<rparr>],
                users_seq := 3\<rparr>"

definition long_password :: string where
  "long_password = replicate 4097 (CHR ''x'')"

definition count_fav :: "int \<Rightarrow> int \<Rightarrow> store \<Rightarrow> nat" where
  "count_fav uid rid s = length (filter (is_favourite uid rid) (favourites s))"

section \<open>The stores the program builds\<close>

text \<open>
  \<open>init_db\<close> run on a new file leaves the three tables empty; the recipe table is whatever
  the loading process put there.  From then on the store changes through the four writing
  operations of the program, and from outside when the recipe table is reloaded or the
  file becomes unreadable or readable again.
\<close>

definition init_db :: "recipe list option \<Rightarrow> store" where
  "init_db tbl =
     \<lparr>openable = True, users = [], users_seq = 0, favourites = [], favourites_seq = 0,
      shared_recipes = [], shared_seq = 0, recepti = tbl\<rparr>"

inductive reachable :: "store \<Rightarrow> bool" where
  initial: "reachable (init_db tbl)"
| registered: "reachable s \<Longrightarrow> reachable (snd (register argon2_hash salt name password s))"
| added: "reachable s \<Longrightarrow> reachable (snd (add_to_favourites name rid s))"
| removed: "reachable s \<Longrightarrow> reachable (snd (remove_favourite name rid s))"
| shared: "reachable s \<Longrightarrow> reachable (snd (api_share_recipe data cookie s))"
| outside: "reachable s \<Longrightarrow> reachable (s\<lparr>openable := b, recepti := tbl\<rparr>)"

text \<open>
  Two properties of every such store.  Row ids handed out by AUTOINCREMENT are positive, so
  no registered user has id 0; and \<open>add_to_favourites\<close> inserts a pair only when it is not
  there, so no pair of a user and a recipe is stored twice.
\<close>

definition user_ids_positive :: "store \<Rightarrow> bool" where
  "user_ids_positive s = list_all (\<lambda>u. 0 < user_id u) (users s)"

definition favourites_unique :: "store \<Rightarrow> bool" where
  "favourites_unique s = distinct (map (\<lambda>f. (fav_user_id f, fav_recipe_id f)) (favourites s))"

section \<open>Supporting lemmas\<close>

lemmas search_eval_defs =
  execute_select_def search_sql_def pogoji_def pogoj_def parse_select_def quote_def
  word_char_def sep_tokens_def select_header_def conj_of_def conj_tokens_def where_holds_def
  distinct_rows_def select_columns_def summary_def truthy_def demo_store_def torta_def
  palacinke_def fold_case_def is_cont_def skip_char_def b64_char_def b64_alphabet_def

lemma find_append_cases:
  "find P (xs @ ys) = (case find P xs of None \<Rightarrow> find P ys | Some x \<Rightarrow> Some x)"
  by (induction xs) auto

lemma next_rowid_positive: "0 < next_rowid seq ids"
proof -
  have "0 \<le> fold max ids b" if "0 \<le> b" for b :: int
    using that by (induction ids arbitrary: b) auto
  then have "0 \<le> fold max ids 0" by simp
  then show ?thesis unfolding next_rowid_def by linarith
qed

lemma stored_hash_list_ex:
  "list_ex (\<lambda>u. username u = name) (users s) \<longleftrightarrow> stored_hash name s \<noteq> None"
  by (auto simp: stored_hash_def list_ex_iff find_None_iff)

lemma register_existing:
  assumes "openable s" and "stored_hash name s \<noteq> None" and "py_len pw \<le> 4096"
  shows "register H salt name pw s = (Inr register_taken, s)"
  using assms by (simp add: register_def validate_secret_def insert_user_def stored_hash_list_ex)

lemma register_long_password:
  assumes "4096 < py_len pw"
  shows "register H salt name pw s = (Inl PasswordSizeError, s)"
  using assms by (simp add: register_def validate_secret_def)

lemma register_fresh:
  assumes "openable s" and "stored_hash name s = None" and "py_len pw \<le> 4096"
    and "register H salt name pw s = (r, s')"
  shows "r = Inr register_ok" and "openable s'" and "stored_hash name s' = Some (H salt pw)"
proof -
  have no: "\<not> list_ex (\<lambda>u. username u = name) (users s)"
    using assms(2) by (simp add: stored_hash_list_ex)
  have f: "find (\<lambda>u. username u = name) (users s) = None"
    using assms(2) by (simp add: stored_hash_def)
  from assms(1,3,4) no show "r = Inr register_ok" and "openable s'"
    by (auto simp: register_def validate_secret_def insert_user_def Let_def)
  from assms(1,3,4) no f show "stored_hash name s' = Some (H salt pw)"
    by (auto simp: register_def validate_secret_def insert_user_def Let_def stored_hash_def
        find_append_cases)
qed

lemma get_user_id_insert_favourite [simp]:
  "get_user_id name (insert_favourite uid rid s) = get_user_id name s"
  by (simp add: get_user_id_def insert_favourite_def Let_def)

lemma openable_insert_favourite [simp]:
  "openable (insert_favourite uid rid s) = openable s"
  by (simp add: insert_favourite_def Let_def)

lemma count_fav_insert_favourite [simp]:
  "count_fav uid rid (insert_favourite uid rid s) = Suc (count_fav uid rid s)"
  by (simp add: count_fav_def insert_favourite_def Let_def is_favourite_def)

lemma list_ex_count_fav:
  "list_ex (is_favourite uid rid) (favourites s) \<longleftrightarrow> count_fav uid rid s \<noteq> 0"
  by (auto simp: count_fav_def list_ex_iff filter_empty_conv)

lemma add_unknown_user:
  "get_user_id name s = Inr None \<Longrightarrow> add_to_favourites name rid s = (Inr False, s)"
  by (simp add: add_to_favourites_def)

lemma add_known_user:
  assumes "openable s" and "sqlite_int rid"
    and "get_user_id name s = Inr (Some uid)" and "uid \<noteq> 0"
  shows "add_to_favourites name rid s =
           (if count_fav uid rid s \<noteq> 0 then (Inr False, s)
            else (Inr True, insert_favourite uid rid s))"
  using assms by (simp add: add_to_favourites_def list_ex_count_fav)

lemma length_filter_not_less:
  "length (filter (\<lambda>x. \<not> P x) xs) < length xs \<longleftrightarrow> filter P xs \<noteq> []"
  by (induction xs) (auto simp: less_Suc_eq_le)

lemma favourites_listing_ids:
  assumes "get_user_favourites name s = Inr listing" and "recepti s = Some rs"
  shows "fst ` set listing \<subseteq> recipe_id ` set rs"
proof
  fix rid
  assume "rid \<in> fst ` set listing"
  with assms obtain r where "r \<in> set rs" and "recipe_id r = rid"
    by (auto simp: get_user_favourites_def split: sum.splits option.splits if_splits)
  then show "rid \<in> recipe_id ` set rs" by blast
qed

subsection \<open>The statement text of plain keywords is read back as it was meant\<close>

lemma lex_InStr_plain:
  "plain kw \<Longrightarrow> lex (InStr t) (kw @ rest) = lex (InStr (t @ kw)) rest"
  by (induction kw arbitrary: t) (auto simp: plain_def)

lemma lex_header:
  "lex Idle (''\<newline>        SELECT DISTINCT id, naziv_dat, slika\<newline>        FROM recepti\<newline>        WHERE '' @ rest) =
     map_option (\<lambda>r. select_header @ r) (lex Idle rest)"
  by (simp add: quote_def word_char_def sep_tokens_def select_header_def option.map_comp comp_def)

lemma lex_and:
  "lex Idle ('' AND '' @ rest) = map_option (\<lambda>r. Word ''AND'' # r) (lex Idle rest)"
  by (simp add: quote_def word_char_def sep_tokens_def option.map_comp comp_def)

lemma lex_tail: "lex Idle ''\<newline>    '' = Some []"
  by (simp add: quote_def word_char_def sep_tokens_def)

lemma lex_pogoj_open:
  "lex Idle (''(besede LIKE '' @ quote # rest) =
     map_option (\<lambda>r. [LParen, Word ''besede'', Word ''LIKE''] @ r) (lex (InStr []) rest)"
  by (simp add: quote_def word_char_def sep_tokens_def option.map_comp comp_def)

lemma lex_pogoj_middle:
  "lex (InStr t) (quote # '' OR leme LIKE '' @ quote # rest) =
     map_option (\<lambda>r. [Str t, Word ''OR'', Word ''leme'', Word ''LIKE''] @ r) (lex (InStr []) rest)"
  by (simp add: quote_def word_char_def sep_tokens_def option.map_comp comp_def)

lemma lex_pogoj_close:
  "lex (InStr t) (quote # '')'' @ rest) = map_option (\<lambda>r. [Str t, RParen] @ r) (lex Idle rest)"
  by (simp add: quote_def word_char_def sep_tokens_def option.map_comp comp_def)

lemma plain_pattern: "plain kw \<Longrightarrow> plain (pattern kw)"
  by (simp add: plain_def pattern_def quote_def)

lemma pogoj_pattern:
  "pogoj kw @ rest =
     ''(besede LIKE '' @ quote # pattern kw @ quote # '' OR leme LIKE '' @ quote # pattern kw @
     quote # '')'' @ rest"
  by (simp add: pogoj_def pattern_def)

lemma lex_pogoj:
  assumes "plain kw"
  shows "lex Idle (pogoj kw @ rest) =
           map_option (\<lambda>r. conj_tokens (pattern kw) (pattern kw) @ r) (lex Idle rest)"
proof -
  have p: "plain (pattern kw)" using assms by (rule plain_pattern)
  have "lex Idle (pogoj kw @ rest) =
          map_option (\<lambda>r. [LParen, Word ''besede'', Word ''LIKE''] @ r)
            (map_option (\<lambda>r. [Str (pattern kw), Word ''OR'', Word ''leme'', Word ''LIKE''] @ r)
               (map_option (\<lambda>r. [Str (pattern kw), RParen] @ r) (lex Idle rest)))"
    by (simp only: pogoj_pattern lex_pogoj_open lex_InStr_plain [OF p] lex_pogoj_middle
          lex_pogoj_close append_Nil)
  also have "\<dots> = map_option (\<lambda>r. conj_tokens (pattern kw) (pattern kw) @ r) (lex Idle rest)"
    by (simp add: option.map_comp comp_def conj_tokens_def)
  finally show ?thesis .
qed

lemma lex_pogoji:
  assumes "kws \<noteq> []" and "list_all plain kws"
  shows "lex Idle (pogoji kws @ ''\<newline>    '') =
           Some (join [Word ''AND''] (map (\<lambda>kw. conj_tokens (pattern kw) (pattern kw)) kws))"
  using assms
proof (induction kws)
  case Nil
  then show ?case by simp
next
  case (Cons kw kws)
  then have kw: "plain kw" by simp
  show ?case
  proof (cases kws)
    case Nil
    have "lex Idle (pogoj kw @ ''\<newline>    '') = Some (conj_tokens (pattern kw) (pattern kw))"
      by (simp only: lex_pogoj [OF kw] lex_tail option.map append_Nil2)
    moreover have "pogoji [kw] = pogoj kw" by (simp add: pogoji_def)
    ultimately show ?thesis using Nil by simp
  next
    case (Cons k ks)
    with Cons.prems Cons.IH
    have ih: "lex Idle (pogoji kws @ ''\<newline>    '') =
           Some (join [Word ''AND''] (map (\<lambda>kw. conj_tokens (pattern kw) (pattern kw)) kws))"
      by simp
    have "pogoji (kw # kws) @ ''\<newline>    '' = pogoj kw @ ('' AND '' @ (pogoji kws @ ''\<newline>    ''))"
      using Cons by (simp add: pogoji_def)
    then have "lex Idle (pogoji (kw # kws) @ ''\<newline>    '') =
          map_option (\<lambda>r. conj_tokens (pattern kw) (pattern kw) @ r)
            (map_option (\<lambda>r. Word ''AND'' # r) (lex Idle (pogoji kws @ ''\<newline>    '')))"
      by (simp only: lex_pogoj [OF kw] lex_and)
    with ih Cons show ?thesis by simp
  qed
qed

lemma split_and_nonempty: "split_and ts \<noteq> []"
  by (induction ts) (auto split: list.splits)

lemma split_and_append:
  "Word ''AND'' \<notin> set g \<Longrightarrow>
   split_and (g @ rest) = (g @ hd (split_and rest)) # tl (split_and rest)"
  using split_and_nonempty [of rest]
  by (induction g) (auto split: list.splits)

lemma split_and_group: "Word ''AND'' \<notin> set g \<Longrightarrow> split_and g = [g]"
  using split_and_append [of g "[]"] by simp

lemma split_and_join:
  assumes "groups \<noteq> []" and "\<forall>g\<in>set groups. Word ''AND'' \<notin> set g"
  shows "split_and (join [Word ''AND''] groups) = groups"
  using assms
proof (induction groups)
  case Nil
  then show ?case by simp
next
  case (Cons g gs)
  show ?case
  proof (cases gs)
    case Nil
    with Cons.prems show ?thesis by (simp add: split_and_group)
  next
    case (Cons h hs)
    with Cons.prems Cons.IH have ih: "split_and (join [Word ''AND''] gs) = gs" by simp
    from Cons.prems have g: "Word ''AND'' \<notin> set g" by simp
    have "join [Word ''AND''] (g # gs) = g @ (Word ''AND'' # join [Word ''AND''] gs)"
      using Cons by simp
    with split_and_append [OF g, of "Word ''AND'' # join [Word ''AND''] gs"] ih
    show ?thesis by simp
  qed
qed

lemma conj_of_conj_tokens: "conj_of (conj_tokens p q) = Some (p, q)"
  by (simp add: conj_of_def conj_tokens_def)

lemma those_map_Some: "those (map (\<lambda>x. Some (f x)) xs) = Some (map f xs)"
  by (induction xs) simp_all

lemma parse_select_search_sql:
  assumes "keywords \<noteq> []" and "list_all plain keywords"
  shows "parse_select (search_sql keywords) = Some (map (\<lambda>kw. (pattern kw, pattern kw)) keywords)"
proof -
  let ?groups = "map (\<lambda>kw. conj_tokens (pattern kw) (pattern kw)) keywords"
  have "lex Idle (search_sql keywords) = Some (select_header @ join [Word ''AND''] ?groups)"
    unfolding search_sql_def lex_header lex_pogoji [OF assms] by simp
  moreover have "take 10 (select_header @ join [Word ''AND''] ?groups) = select_header"
    and "drop 10 (select_header @ join [Word ''AND''] ?groups) = join [Word ''AND''] ?groups"
    by (simp_all add: select_header_def)
  moreover have "split_and (join [Word ''AND''] ?groups) = ?groups"
    using assms(1) by (intro split_and_join) (auto simp: conj_tokens_def)
  moreover have "those (map conj_of ?groups) = Some (map (\<lambda>kw. (pattern kw, pattern kw)) keywords)"
    by (simp add: comp_def conj_of_conj_tokens those_map_Some)
  ultimately show ?thesis by (simp add: parse_select_def)
qed

subsection \<open>LIKE on a pattern without wildcards of its own\<close>

lemma length_skip_char: "t \<noteq> [] \<Longrightarrow> length (skip_char t) < length t"
  by (cases t) (simp_all add: skip_char_def le_imp_less_Suc length_dropWhile_le)

lemma skip_char_drop:
  assumes "t \<noteq> []"
  shows "\<exists>k. 0 < k \<and> k \<le> length t \<and> skip_char t = drop k t \<and>
             (\<forall>i. 0 < i \<and> i < k \<longrightarrow> is_cont (t ! i))"
proof -
  from assms obtain c cs where t: "t = c # cs" by (cases t) auto
  show ?thesis
  proof (cases "192 \<le> (of_char c :: nat)")
    case True
    let ?n = "length (takeWhile is_cont cs)"
    have d: "skip_char t = drop (Suc ?n) t"
      using t True by (simp add: skip_char_def dropWhile_eq_drop)
    have le: "Suc ?n \<le> length t"
      using t by (simp add: length_takeWhile_le)
    have "is_cont (t ! i)" if "0 < i" and "i < Suc ?n" for i
    proof -
      from that obtain j where j: "i = Suc j" "j < ?n" by (cases i) auto
      then have "takeWhile is_cont cs ! j \<in> set (takeWhile is_cont cs)" by simp
      then have "is_cont (takeWhile is_cont cs ! j)" by (auto dest: set_takeWhileD)
      with j t show ?thesis by (simp add: takeWhile_nth)
    qed
    with d le show ?thesis by blast
  next
    case False
    with t have "skip_char t = drop 1 t" by (simp add: skip_char_def)
    moreover have "(1::nat) \<le> length t" using t by simp
    ultimately show ?thesis by (intro exI [of _ 1]) simp
  qed
qed

lemma like_percent_only: "like ''%'' t"
proof (induction "length t" arbitrary: t rule: less_induct)
  case less
  show ?case
  proof (cases t)
    case Nil
    then show ?thesis by simp
  next
    case (Cons c cs)
    then have "length (skip_char (c # cs)) < length t"
      using length_skip_char [of "c # cs"] by simp
    then have "like ''%'' (skip_char (c # cs))" by (rule less)
    with Cons show ?thesis by simp
  qed
qed

lemma like_prefix:
  assumes "no_wildcard kw"
  shows "like (kw @ ''%'') t \<longleftrightarrow>
           map fold_case (take (length kw) t) = map fold_case kw"
  using assms
proof (induction kw arbitrary: t)
  case Nil
  show ?case using like_percent_only [of t] by simp
next
  case (Cons k ks)
  then have ks: "no_wildcard ks" and k: "k \<noteq> CHR ''%''" "k \<noteq> CHR ''_''"
    by (auto simp: no_wildcard_def)
  show ?case
  proof (cases t)
    case Nil
    with k show ?thesis by simp
  next
    case (Cons c cs)
    with k Cons.IH [OF ks, of cs] show ?thesis by auto
  qed
qed

lemma fold_case_is_cont: "fold_case a = fold_case b \<Longrightarrow> is_cont a = is_cont b"
  by (auto simp: fold_case_def is_cont_def Let_def split: if_splits)

lemma like_percent_prefix:
  assumes "no_wildcard kw" and "kw \<noteq> []" and "utf8_start kw"
  shows "like (CHR ''%'' # kw @ ''%'') t \<longleftrightarrow>
           (\<exists>i\<le>length t. map fold_case (take (length kw) (drop i t)) = map fold_case kw)"
proof (induction "length t" arbitrary: t rule: less_induct)
  case less
  let ?P = "\<lambda>u. map fold_case (take (length kw) u) = map fold_case kw"
  from assms(2,3) obtain k ks where kw: "kw = k # ks" and k: "\<not> is_cont k"
    by (cases kw) (auto simp: utf8_start_def)
  show ?case
  proof (cases t)
    case Nil
    then show ?thesis using like_prefix [OF assms(1), of "[]"] by simp
  next
    case (Cons c cs)
    then have ne: "t \<noteq> []" by simp
    from skip_char_drop [OF ne] obtain n where n: "0 < n" "n \<le> length t"
      and sk: "skip_char t = drop n t" and cont: "\<forall>i. 0 < i \<and> i < n \<longrightarrow> is_cont (t ! i)"
      by blast
    have "length (drop n t) < length t" using n by simp
    from less [OF this]
    have ih: "like (CHR ''%'' # kw @ ''%'') (drop n t) \<longleftrightarrow>
                (\<exists>j\<le>length t - n. ?P (drop (j + n) t))"
      by simp
    have step: "like (CHR ''%'' # kw @ ''%'') t \<longleftrightarrow>
                  ?P t \<or> like (CHR ''%'' # kw @ ''%'') (drop n t)"
      using Cons sk like_prefix [OF assms(1), of t] by simp
    have "(\<exists>i\<le>length t. ?P (drop i t)) \<longleftrightarrow> ?P t \<or> (\<exists>j\<le>length t - n. ?P (drop (j + n) t))"
    proof
      assume "\<exists>i\<le>length t. ?P (drop i t)"
      then obtain i where i: "i \<le> length t" "?P (drop i t)" by blast
      consider "i = 0" | "0 < i" "i < n" | "n \<le> i" by linarith
      then show "?P t \<or> (\<exists>j\<le>length t - n. ?P (drop (j + n) t))"
      proof cases
        case 1
        with i show ?thesis by simp
      next
        case 2
        with n have lt: "i < length t" by simp
        then have d: "drop i t = t ! i # drop (Suc i) t" by (simp add: Cons_nth_drop_Suc)
        from i(2) have "fold_case (t ! i) = fold_case k"
          unfolding d kw by simp
        then have "is_cont (t ! i) = is_cont k" by (rule fold_case_is_cont)
        with cont 2 k show ?thesis by blast
      next
        case 3
        then have "i - n \<le> length t - n" "i - n + n = i" using i(1) by simp_all
        with i(2) show ?thesis by metis
      qed
    next
      assume "?P t \<or> (\<exists>j\<le>length t - n. ?P (drop (j + n) t))"
      then show "\<exists>i\<le>length t. ?P (drop i t)"
      proof
        assume "?P t"
        then have "?P (drop 0 t)" by simp
        then show ?thesis by blast
      next
        assume "\<exists>j\<le>length t - n. ?P (drop (j + n) t)"
        then obtain j where "j \<le> length t - n" "?P (drop (j + n) t)" by blast
        with n have "j + n \<le> length t" "?P (drop (j + n) t)" by simp_all
        then show ?thesis by blast
      qed
    qed
    with step ih show ?thesis by simp
  qed
qed

lemma contains_iff:
  "contains t kw \<longleftrightarrow> (\<exists>i\<le>length t. take (length kw) (drop i t) = kw)"
proof (induction t)
  case Nil
  then show ?case by auto
next
  case (Cons c cs)
  have "(\<exists>i\<le>length (c # cs). take (length kw) (drop i (c # cs)) = kw) \<longleftrightarrow>
        take (length kw) (c # cs) = kw \<or> (\<exists>i\<le>length cs. take (length kw) (drop i cs) = kw)"
  proof
    assume "\<exists>i\<le>length (c # cs). take (length kw) (drop i (c # cs)) = kw"
    then obtain i where i: "i \<le> length (c # cs)" "take (length kw) (drop i (c # cs)) = kw"
      by blast
    show "take (length kw) (c # cs) = kw \<or> (\<exists>i\<le>length cs. take (length kw) (drop i cs) = kw)"
    proof (cases i)
      case 0
      with i show ?thesis by simp
    next
      case (Suc j)
      with i have "j \<le> length cs" "take (length kw) (drop j cs) = kw" by simp_all
      then show ?thesis by blast
    qed
  next
    assume "take (length kw) (c # cs) = kw \<or> (\<exists>i\<le>length cs. take (length kw) (drop i cs) = kw)"
    then show "\<exists>i\<le>length (c # cs). take (length kw) (drop i (c # cs)) = kw"
    proof
      assume "take (length kw) (c # cs) = kw"
      then have "take (length kw) (drop 0 (c # cs)) = kw" by simp
      then show ?thesis by blast
    next
      assume "\<exists>i\<le>length cs. take (length kw) (drop i cs) = kw"
      then obtain j where "j \<le> length cs" "take (length kw) (drop j cs) = kw" by blast
      then have "Suc j \<le> length (c # cs)" "take (length kw) (drop (Suc j) (c # cs)) = kw"
        by simp_all
      then show ?thesis by blast
    qed
  qed
  with Cons show ?case by simp
qed

lemma like_pattern:
  assumes "no_wildcard kw" and "utf8_start kw"
  shows "like (pattern kw) t \<longleftrightarrow> contains_ci t kw"
proof (cases "kw = []")
  case True
  have "like ''%%'' t" using like_percent_only [of t] by (cases t) simp_all
  moreover have "contains_ci t []" by (auto simp: contains_ci_def contains_iff)
  ultimately show ?thesis using True by (simp add: pattern_def)
next
  case False
  have "like (pattern kw) t \<longleftrightarrow>
      (\<exists>i\<le>length t. map fold_case (take (length kw) (drop i t)) = map fold_case kw)"
    using like_percent_prefix [OF assms(1) False assms(2)] by (simp add: pattern_def)
  also have "\<dots> \<longleftrightarrow> contains_ci t kw"
    by (simp add: contains_ci_def contains_iff take_map drop_map)
  finally show ?thesis .
qed

lemma where_holds_patterns:
  assumes "list_all no_wildcard kws" and "list_all utf8_start kws"
  shows "where_holds (map (\<lambda>kw. (pattern kw, pattern kw)) kws) r \<longleftrightarrow>
           list_all (\<lambda>kw. contains_ci (besede r) kw \<or> contains_ci (leme r) kw) kws"
  using assms by (induction kws) (simp_all add: where_holds_def like_pattern)

subsection \<open>The two store properties are kept\<close>

text \<open>
  The theorems below ask for a user id other than 0 and, in one place, for a pair stored at
  most once.  Both hold in every reachable store: registration only hands out positive
  ids, and the two operations on favourites keep the pairs apart.
\<close>

lemma get_user_id_nonzero:
  assumes "user_ids_positive s" and "get_user_id name s = Inr (Some uid)"
  shows "uid \<noteq> 0"
proof -
  from assms(2) obtain u where "find (\<lambda>u. username u = name) (users s) = Some u"
    and "user_id u = uid"
    by (auto simp: get_user_id_def split: if_splits)
  then have "u \<in> set (users s)" by (auto simp: find_Some_iff)
  with assms(1) \<open>user_id u = uid\<close> show ?thesis
    by (auto simp: user_ids_positive_def list_all_iff)
qed

lemma register_keeps_user_ids_positive:
  assumes "user_ids_positive s"
  shows "user_ids_positive (snd (register H salt name pw s))"
  using assms next_rowid_positive [of "users_seq s" "map user_id (users s)"]
  by (auto simp: register_def insert_user_def Let_def user_ids_positive_def split: sum.splits)

lemma add_keeps_favourites_unique:
  assumes "favourites_unique s"
  shows "favourites_unique (snd (add_to_favourites name rid s))"
  using assms
  by (auto simp: add_to_favourites_def insert_favourite_def Let_def favourites_unique_def
      list_ex_iff is_favourite_def split: sum.splits option.splits)

lemma remove_keeps_favourites_unique:
  assumes "favourites_unique s"
  shows "favourites_unique (snd (remove_favourite name rid s))"
  using assms
  by (auto simp: remove_favourite_def Let_def favourites_unique_def distinct_map_filter
      split: sum.splits option.splits)

lemma favourites_unique_count:
  assumes "favourites_unique s"
  shows "count_fav uid rid s \<le> 1"
proof -
  have "length (filter (is_favourite uid rid) fs) \<le> 1"
    if "distinct (map (\<lambda>f. (fav_user_id f, fav_recipe_id f)) fs)" for fs :: "favourite list"
    using that
  proof (induction fs)
    case Nil
    then show ?case by simp
  next
    case (Cons f fs)
    from Cons.prems have d: "distinct (map (\<lambda>f. (fav_user_id f, fav_recipe_id f)) fs)"
      and n: "(fav_user_id f, fav_recipe_id f) \<notin> (\<lambda>f. (fav_user_id f, fav_recipe_id f)) ` set fs"
      by simp_all
    show ?case
    proof (cases "is_favourite uid rid f")
      case True
      with n have "filter (is_favourite uid rid) fs = []"
        by (auto simp: filter_empty_conv image_iff is_favourite_def)
      with True show ?thesis by simp
    next
      case False
      with Cons.IH [OF d] show ?thesis by simp
    qed
  qed
  with assms show ?thesis
    by (simp add: favourites_unique_def count_fav_def)
qed

lemma register_keeps_favourites:
  "favourites (snd (register H salt name pw s)) = favourites s"
  by (auto simp: register_def insert_user_def Let_def split: sum.splits)

lemma add_keeps_users: "users (snd (add_to_favourites name rid s)) = users s"
  by (auto simp: add_to_favourites_def insert_favourite_def Let_def
      split: sum.splits option.splits)

lemma remove_keeps_users: "users (snd (remove_favourite name rid s)) = users s"
  by (auto simp: remove_favourite_def Let_def split: sum.splits option.splits)

lemma share_keeps_users_and_favourites:
  "users (snd (api_share_recipe data cookie s)) = users s \<and>
   favourites (snd (api_share_recipe data cookie s)) = favourites s"
  by (auto simp: api_share_recipe_def insert_share_def Let_def
      split: sum.splits option.splits)

lemma reachable_invariants:
  assumes "reachable s"
  shows "user_ids_positive s \<and> favourites_unique s"
  using assms
proof (induction rule: reachable.induct)
  case (initial tbl)
  show ?case by (simp add: init_db_def user_ids_positive_def favourites_unique_def)
next
  case (registered s H salt name pw)
  with register_keeps_user_ids_positive [of s H salt name pw] show ?case
    by (simp add: favourites_unique_def register_keeps_favourites)
next
  case (added s name rid)
  with add_keeps_favourites_unique [of s name rid] show ?case
    by (simp add: user_ids_positive_def add_keeps_users)
next
  case (removed s name rid)
  with remove_keeps_favourites_unique [of s name rid] show ?case
    by (simp add: user_ids_positive_def remove_keeps_users)
next
  case (shared s data cookie)
  then show ?case
    by (simp add: user_ids_positive_def favourites_unique_def share_keeps_users_and_favourites)
next
  case (outside s b tbl)
  then show ?case by (simp add: user_ids_positive_def favourites_unique_def)
qed

lemma reachable_known_user:
  assumes "reachable s" and "get_user_id name s = Inr (Some uid)"
  shows "uid \<noteq> 0 \<and> count_fav uid rid s \<le> 1"
  using reachable_invariants [OF assms(1)] get_user_id_nonzero [OF _ assms(2)]
    favourites_unique_count [of s uid rid]
  by simp

section \<open>Credential store\<close>

text \<open>
  Claim C5 says that the second registration of a username returns the \<open>success: false\<close>
  body.  \<open>argon2.hash\<close> is called before anything else and outside the \<open>try\<close>: when the
  password of the second call has more than 4096 characters the call ends in
  \<open>PasswordSizeError\<close>, not in a response.
\<close>

theorem register_long_password_counterexample:
  "register demo_hash ''s1'' ''carol'' ''pw3'' demo_store = (Inr register_ok, carol_store) \<and>
   register demo_hash ''s2'' ''carol'' long_password carol_store =
     (Inl PasswordSizeError, carol_store)"
  by (simp add: register_def validate_secret_def py_len_def is_cont_def long_password_def
      insert_user_def demo_store_def carol_store_def next_rowid_def demo_hash_def)

text \<open>
  Claim C5, amended.  Registering the same username twice with passwords of at most 4096
  characters: whatever the first call did, the second call answers with the
  \<open>success: false\<close> body (the UNIQUE constraint on \<open>username\<close> is violated and the
  \<open>IntegrityError\<close> is caught) and leaves the store as the first call left it.  The hash
  stored under the name is the one it had before the two calls, or, when the name was new,
  the hash made by the first call.
\<close>

theorem register_twice:
  assumes "openable s"
    and "py_len pw1 \<le> 4096" and "py_len pw2 \<le> 4096"
    and "register H salt1 name pw1 s = (r1, s1)"
    and "register H salt2 name pw2 s1 = (r2, s2)"
  shows "r2 = Inr register_taken \<and> s2 = s1 \<and>
         stored_hash name s2 =
           (case stored_hash name s of None \<Rightarrow> Some (H salt1 pw1) | Some h \<Rightarrow> Some h)"
proof (cases "stored_hash name s")
  case None
  from register_fresh [OF assms(1) None assms(2,4)]
  have o: "openable s1" and h: "stored_hash name s1 = Some (H salt1 pw1)" by simp_all
  from register_existing [OF o _ assms(3), of name H salt2] h assms(5) None
  show ?thesis by simp
next
  case (Some h)
  with register_existing [OF assms(1) _ assms(2), of name H salt1] assms(4)
  have s1: "s1 = s" by simp
  with register_existing [OF assms(1) _ assms(3), of name H salt2] Some assms(5)
  show ?thesis by simp
qed

theorem register_twice_witness:
  "openable demo_store \<and> py_len ''pw3'' \<le> 4096 \<and> py_len ''other'' \<le> 4096 \<and>
   register demo_hash ''s1'' ''carol'' ''pw3'' demo_store = (Inr register_ok, carol_store) \<and>
   register demo_hash ''s2'' ''carol'' ''other'' carol_store = (Inr register_taken, carol_store) \<and>
   stored_hash ''carol'' carol_store = Some ''s1$pw3''"
proof -
  have o: "openable demo_store" by (simp add: demo_store_def)
  have p: "py_len ''pw3'' \<le> 4096" "py_len ''other'' \<le> 4096" by (simp_all add: py_len_def)
  have a: "register demo_hash ''s1'' ''carol'' ''pw3'' demo_store = (Inr register_ok, carol_store)"
    by (simp add: register_def validate_secret_def py_len_def is_cont_def insert_user_def
        demo_store_def carol_store_def next_rowid_def demo_hash_def)
  obtain r2 s2 where b: "register demo_hash ''s2'' ''carol'' ''other'' carol_store = (r2, s2)"
    by (cases "register demo_hash ''s2'' ''carol'' ''other'' carol_store")
  have n: "stored_hash ''carol'' demo_store = None"
    by (simp add: stored_hash_def demo_store_def)
  from register_twice [OF o p a b] n have r2: "r2 = Inr register_taken" and s2: "s2 = carol_store"
    and h: "stored_hash ''carol'' s2 = Some (demo_hash ''s1'' ''pw3'')" by auto
  from h have h': "stored_hash ''carol'' carol_store = Some ''s1$pw3''"
    unfolding s2 by (simp add: demo_hash_def)
  from b have b': "register demo_hash ''s2'' ''carol'' ''other'' carol_store =
      (Inr register_taken, carol_store)"
    unfolding r2 s2 .
  from o p a b' h' show ?thesis by simp
qed

text \<open>
  Claim C2 says that for every password a failed verification is a plain \<open>False\<close> and
  that an unknown username cannot be told from a wrong password.  \<open>argon2.verify\<close> is
  called only when the username is known, and it raises for a password of more than 4096
  characters: with such a password a known username ends in \<open>PasswordSizeError\<close>, an
  unknown one in the 401 response.
\<close>

theorem login_long_password_counterexample:
  "stored_hash ''alice'' demo_store = Some ''h1'' \<and> \<not> demo_verify long_password ''h1'' \<and>
   stored_hash ''mallory'' demo_store = None \<and>
   login demo_verify ''alice'' long_password demo_store = Inl PasswordSizeError \<and>
   login demo_verify ''mallory'' long_password demo_store = Inr login_failed"
proof -
  have n: "py_len long_password = 4097"
    by (simp add: long_password_def py_len_def is_cont_def)
  have d: "long_password \<noteq> pw" if "length pw < 4097" for pw
  proof
    assume "long_password = pw"
    then have "length long_password = length pw" by (rule arg_cong)
    with that show False by (simp add: long_password_def)
  qed
  show ?thesis
    by (simp add: login_def credentials_ok_def validate_secret_def n d stored_hash_def
        demo_store_def demo_verify_def)
qed

text \<open>
  Claim C2, amended.  With an unknown username and any password, and with a known
  username and a password of at most 4096 characters that the stored hash does not verify,
  the test of \<open>login\<close> is false without an exception, and the route answers with one and
  the same response, of status 401.
\<close>

theorem login_failures_indistinguishable:
  assumes "openable s"
    and "stored_hash unknown s = None"
    and "stored_hash name s = Some h"
    and "py_len wrong \<le> 4096"
    and "\<not> argon2_verify wrong h"
  shows "credentials_ok argon2_verify unknown pw s = Inr False \<and>
         credentials_ok argon2_verify name wrong s = Inr False \<and>
         login argon2_verify unknown pw s = Inr login_failed \<and>
         login argon2_verify name wrong s = Inr login_failed \<and>
         status_code login_failed = 401"
  using assms
  by (simp add: login_def credentials_ok_def validate_secret_def login_failed_def
      json_response_def)

theorem login_failures_indistinguishable_witness:
  "openable demo_store \<and> stored_hash ''mallory'' demo_store = None \<and>
   stored_hash ''alice'' demo_store = Some ''h1'' \<and> py_len ''guess'' \<le> 4096 \<and>
   \<not> demo_verify ''guess'' ''h1'' \<and>
   login demo_verify ''mallory'' long_password demo_store = Inr login_failed \<and>
   login demo_verify ''alice'' ''guess'' demo_store = Inr login_failed \<and>
   login demo_verify ''alice'' ''pw1'' demo_store = Inr (login_ok ''alice'')"
proof -
  have a: "openable demo_store" "stored_hash ''mallory'' demo_store = None"
    "stored_hash ''alice'' demo_store = Some ''h1''" "py_len ''guess'' \<le> 4096"
    "\<not> demo_verify ''guess'' ''h1''"
    by (simp_all add: demo_store_def stored_hash_def demo_verify_def py_len_def)
  have b: "login demo_verify ''alice'' ''pw1'' demo_store = Inr (login_ok ''alice'')"
    using a by (simp add: login_def credentials_ok_def validate_secret_def py_len_def
        is_cont_def demo_verify_def latin1_def)
  from login_failures_indistinguishable
         [where s = demo_store and unknown = "''mallory''" and name = "''alice''"
            and h = "''h1''" and argon2_verify = demo_verify and wrong = "''guess''"
            and pw = long_password] a b
  show ?thesis by simp
qed

section \<open>Recipe repository\<close>

text \<open>
  Claim C6.  With an empty keyword list the search returns the empty list, whatever the
  recipe table holds.
\<close>

theorem search_empty_keywords: "openable s \<Longrightarrow> search_recipes other [] s = Inr []"
  by (simp add: search_recipes_def)

theorem search_empty_keywords_witness:
  "openable demo_store \<and> recepti demo_store = Some [torta, palacinke] \<and>
   search_recipes no_rows [] demo_store = Inr []"
  using search_empty_keywords [of demo_store no_rows] by (simp add: demo_store_def)

text \<open>
  Claim C1 asks that a search return exactly the recipes in which every keyword is a
  substring of one of the two text columns, for every keyword, the keyword never being
  pasted into the statement text.  \<open>search_recipes\<close> pastes it.  For the keyword \<open>%\<close> the
  statement reads \<open>besede LIKE '%%%' OR leme LIKE '%%%'\<close>, a pattern that matches every
  text: both recipes of the store come back, and neither has a percent sign in either
  column.
\<close>

theorem search_percent_keyword_returns_everything:
  "search_recipes other [''%''] demo_store =
     Inr [\<lparr>rs_id = SqlInteger 7, rs_naziv = SqlText ''torta.txt'',
           rs_image = ''data:image/png;base64,cG5n''\<rparr>,
          \<lparr>rs_id = SqlInteger 8, rs_naziv = SqlText ''palacinke.txt'', rs_image = []\<rparr>] \<and>
   recepti demo_store = Some [torta, palacinke] \<and>
   filter (spec_matches [''%'']) [torta, palacinke] = []"
  by (simp add: search_recipes_def search_eval_defs spec_matches_def)

text \<open>
  What the search does compute.  For keywords without a single quote, a NUL character or
  a LIKE wildcard (\<open>%\<close>, \<open>_\<close>) the statement is read back as written, and the rows
  selected are those of the recipes in which every keyword occurs in one of the two
  columns, upper and lower case ASCII letters taken as equal.
\<close>

lemma search_recipes_plain_keywords:
  assumes "openable s" and "recepti s = Some rs"
    and "kws \<noteq> []" and "list_all plain kws" and "list_all no_wildcard kws"
    and "list_all utf8_start kws"
  shows "search_recipes other kws s =
           summaries (distinct_rows (map select_columns
             (filter (\<lambda>r. list_all (\<lambda>kw. contains_ci (besede r) kw \<or> contains_ci (leme r) kw) kws)
                rs)))"
proof -
  have "execute_select other (search_sql kws) (recepti s) =
          Inr (distinct_rows (map select_columns
                 (filter (where_holds (map (\<lambda>kw. (pattern kw, pattern kw)) kws)) rs)))"
    using assms(2) by (simp add: execute_select_def parse_select_search_sql [OF assms(3,4)])
  moreover have "filter (where_holds (map (\<lambda>kw. (pattern kw, pattern kw)) kws)) rs =
      filter (\<lambda>r. list_all (\<lambda>kw. contains_ci (besede r) kw \<or> contains_ci (leme r) kw) kws) rs"
    by (rule filter_cong) (simp_all add: where_holds_patterns [OF assms(5,6)])
  ultimately show ?thesis
    using assms(1,3) by (simp add: search_recipes_def)
qed

text \<open>
  Claim C7 says that store failures during a search, a failed connection among them, end
  in an empty result.  The connection is opened before the \<open>try\<close>: when it cannot be
  opened the exception leaves \<open>search_recipes\<close>.
\<close>

theorem search_connect_failure_counterexample:
  "search_recipes no_rows [''torta''] (demo_store\<lparr>openable := False\<rparr>) = Inl OperationalError \<and>
   search_recipes no_rows [''torta''] (demo_store\<lparr>openable := False\<rparr>) \<noteq> Inr []"
  by (simp add: search_recipes_def)

text \<open>
  Claim C7, amended.  A failure to open the connection leaves \<open>search_recipes\<close> as an
  exception.  Once the connection is open, whenever running the statement raises (a
  statement SQLite rejects, a missing table) the search returns the empty list.
\<close>

theorem search_execute_failure_caught:
  "(\<not> openable s \<longrightarrow> search_recipes other keywords s = Inl OperationalError) \<and>
   (openable s \<and> (\<exists>e. execute_select other (search_sql keywords) (recepti s) = Inl e) \<longrightarrow>
      search_recipes other keywords s = Inr [])"
  by (auto simp: search_recipes_def Let_def)

theorem search_execute_failure_caught_witness:
  "\<not> openable (demo_store\<lparr>openable := False\<rparr>) \<and>
   search_recipes no_rows [''torta''] (demo_store\<lparr>openable := False\<rparr>) = Inl OperationalError \<and>
   openable (demo_store\<lparr>recepti := None\<rparr>) \<and>
   execute_select no_rows (search_sql [''torta'']) (recepti (demo_store\<lparr>recepti := None\<rparr>)) =
     Inl OperationalError \<and>
   search_recipes no_rows [''torta''] (demo_store\<lparr>recepti := None\<rparr>) = Inr []"
proof -
  have c: "\<not> openable (demo_store\<lparr>openable := False\<rparr>)" by simp
  have o: "openable (demo_store\<lparr>recepti := None\<rparr>)" by (simp add: demo_store_def)
  have e: "execute_select no_rows (search_sql [''torta'']) (recepti (demo_store\<lparr>recepti := None\<rparr>)) =
     Inl OperationalError"
    by (simp add: search_eval_defs)
  from search_execute_failure_caught [of "demo_store\<lparr>openable := False\<rparr>" no_rows "[''torta'']"] c
  have 1: "search_recipes no_rows [''torta''] (demo_store\<lparr>openable := False\<rparr>) =
      Inl OperationalError" by blast
  from search_execute_failure_caught [of "demo_store\<lparr>recepti := None\<rparr>" no_rows "[''torta'']"] o e
  have 2: "search_recipes no_rows [''torta''] (demo_store\<lparr>recepti := None\<rparr>) = Inr []" by blast
  from c o e 1 2 show ?thesis by simp
qed

section \<open>Favourites ledger\<close>

text \<open>
  Claim C3 speaks of every recipe id.  A Python \<open>int\<close> beyond 64 bits cannot be bound to the
  SELECT: for a known user \<open>add_to_favourites\<close> then raises \<open>OverflowError\<close>, returns neither
  \<open>True\<close> nor \<open>False\<close>, and a second call does the same, so that no row is stored.
\<close>

theorem add_to_favourites_overflow_counterexample:
  "get_user_id ''alice'' demo_store = Inr (Some 1) \<and>
   add_to_favourites ''alice'' (2 ^ 63) demo_store = (Inl OverflowError, demo_store) \<and>
   add_to_favourites ''alice'' (2 ^ 63) (snd (add_to_favourites ''alice'' (2 ^ 63) demo_store)) =
     (Inl OverflowError, demo_store) \<and>
   count_fav 1 (2 ^ 63) demo_store = 0"
  by (simp add: add_to_favourites_def get_user_id_def demo_store_def sqlite_int_def
      count_fav_def is_favourite_def)

text \<open>
  Claim C3, amended.  For a recipe id that is a 64-bit integer, \<open>add_to_favourites\<close> returns
  \<open>False\<close> and changes nothing when the user is unknown or the pair is already stored;
  otherwise it returns \<open>True\<close> and stores the pair once.  Called a second time with the
  same known user and recipe it returns \<open>False\<close> and changes nothing, and the ledger holds
  the pair exactly once.
\<close>

theorem add_to_favourites_idempotent:
  assumes "openable s" and "sqlite_int rid"
  shows "(get_user_id name s = Inr None \<longrightarrow> add_to_favourites name rid s = (Inr False, s)) \<and>
         (get_user_id name s = Inr (Some uid) \<and> uid \<noteq> 0 \<and> count_fav uid rid s \<noteq> 0 \<longrightarrow>
            add_to_favourites name rid s = (Inr False, s)) \<and>
         (get_user_id name s = Inr (Some uid) \<and> uid \<noteq> 0 \<and> count_fav uid rid s = 0 \<longrightarrow>
            add_to_favourites name rid s = (Inr True, insert_favourite uid rid s) \<and>
            count_fav uid rid (insert_favourite uid rid s) = 1) \<and>
         (get_user_id name s = Inr (Some uid) \<and> uid \<noteq> 0 \<and> count_fav uid rid s \<le> 1 \<longrightarrow>
            add_to_favourites name rid (snd (add_to_favourites name rid s)) =
              (Inr False, snd (add_to_favourites name rid s)) \<and>
            count_fav uid rid (snd (add_to_favourites name rid s)) = 1)"
proof -
  have unknown: "add_to_favourites name rid s = (Inr False, s)"
    if "get_user_id name s = Inr None"
    using that by (rule add_unknown_user)
  have known: "add_to_favourites name rid s =
                 (if count_fav uid rid s \<noteq> 0 then (Inr False, s)
                  else (Inr True, insert_favourite uid rid s))"
    if "get_user_id name s = Inr (Some uid)" and "uid \<noteq> 0"
    using assms that by (rule add_known_user)
  have twice: "add_to_favourites name rid (snd (add_to_favourites name rid s)) =
                 (Inr False, snd (add_to_favourites name rid s)) \<and>
               count_fav uid rid (snd (add_to_favourites name rid s)) = 1"
    if u: "get_user_id name s = Inr (Some uid)" "uid \<noteq> 0" and c: "count_fav uid rid s \<le> 1"
  proof (cases "count_fav uid rid s = 0")
    case True
    let ?s1 = "insert_favourite uid rid s"
    have first: "add_to_favourites name rid s = (Inr True, ?s1)"
      using known [OF u] True by simp
    have "add_to_favourites name rid ?s1 = (Inr False, ?s1)"
      using add_known_user [of ?s1 rid name uid] assms u by simp
    with first True show ?thesis by simp
  next
    case False
    with c have one: "count_fav uid rid s = 1" by simp
    have "add_to_favourites name rid s = (Inr False, s)"
      using known [OF u] False by simp
    with one show ?thesis by simp
  qed
  from unknown known twice show ?thesis by simp
qed

theorem add_to_favourites_idempotent_witness:
  "openable demo_store \<and> sqlite_int 8 \<and> sqlite_int 7 \<and>
   get_user_id ''mallory'' demo_store = Inr None \<and>
   add_to_favourites ''mallory'' 8 demo_store = (Inr False, demo_store) \<and>
   get_user_id ''alice'' demo_store = Inr (Some 1) \<and>
   count_fav 1 7 demo_store = 1 \<and>
   add_to_favourites ''alice'' 7 demo_store = (Inr False, demo_store) \<and>
   count_fav 1 8 demo_store = 0 \<and>
   add_to_favourites ''alice'' 8 demo_store = (Inr True, insert_favourite 1 8 demo_store) \<and>
   add_to_favourites ''alice'' 8 (insert_favourite 1 8 demo_store) =
     (Inr False, insert_favourite 1 8 demo_store) \<and>
   count_fav 1 8 (insert_favourite 1 8 demo_store) = 1 \<and>
   favourites (insert_favourite 1 8 demo_store) =
     [\<lparr>fav_id = 1, fav_user_id = 1, fav_recipe_id = 7\<rparr>,
      \<lparr>fav_id = 2, fav_user_id = 1, fav_recipe_id = 8\<rparr>]"
proof -
  have o: "openable demo_store" by (simp add: demo_store_def)
  have i: "sqlite_int 8" "sqlite_int 7" by (simp_all add: sqlite_int_def)
  have m: "get_user_id ''mallory'' demo_store = Inr None"
    by (simp add: get_user_id_def demo_store_def)
  have a: "get_user_id ''alice'' demo_store = Inr (Some 1)"
    by (simp add: get_user_id_def demo_store_def)
  have c7: "count_fav 1 7 demo_store = 1"
    by (simp add: count_fav_def demo_store_def is_favourite_def)
  have c8: "count_fav 1 8 demo_store = 0"
    by (simp add: count_fav_def demo_store_def is_favourite_def)
  have f: "favourites (insert_favourite 1 8 demo_store) =
     [\<lparr>fav_id = 1, fav_user_id = 1, fav_recipe_id = 7\<rparr>,
      \<lparr>fav_id = 2, fav_user_id = 1, fav_recipe_id = 8\<rparr>]"
    by (simp add: insert_favourite_def demo_store_def next_rowid_def)
  from add_to_favourites_idempotent [OF o i(1), of "''mallory''" 1] m
  have 1: "add_to_favourites ''mallory'' 8 demo_store = (Inr False, demo_store)" by simp
  from add_to_favourites_idempotent [OF o i(2), of "''alice''" 1] a c7
  have 2: "add_to_favourites ''alice'' 7 demo_store = (Inr False, demo_store)" by simp
  note t = add_to_favourites_idempotent [OF o i(1), of "''alice''" 1]
  from t a c8
  have 3: "add_to_favourites ''alice'' 8 demo_store = (Inr True, insert_favourite 1 8 demo_store)"
    by simp
  from t a c8
  have 4: "add_to_favourites ''alice'' 8 (insert_favourite 1 8 demo_store) =
     (Inr False, insert_favourite 1 8 demo_store)"
    and 5: "count_fav 1 8 (insert_favourite 1 8 demo_store) = 1"
    by (simp_all add: 3)
  from o i m a c7 c8 f 1 2 3 4 5 show ?thesis by simp
qed

text \<open>
  Claim C8 speaks of every recipe id.  A Python \<open>int\<close> beyond 64 bits cannot be bound to the
  DELETE: for a known user and such an id, a pair that was never made a favourite,
  \<open>remove_favourite\<close> raises \<open>OverflowError\<close> where the claim has it return \<open>False\<close>.
\<close>

theorem remove_favourite_overflow_counterexample:
  "get_user_id ''alice'' demo_store = Inr (Some 1) \<and>
   count_fav 1 (2 ^ 63) demo_store = 0 \<and>
   remove_favourite ''alice'' (2 ^ 63) demo_store = (Inl OverflowError, demo_store)"
  by (simp add: remove_favourite_def get_user_id_def demo_store_def sqlite_int_def
      count_fav_def is_favourite_def)

text \<open>
  Claim C8, amended.  For a recipe id that is a 64-bit integer, \<open>remove_favourite\<close> returns
  \<open>True\<close> exactly when the ledger has fewer rows afterwards.  For an unknown user and for a
  pair that is not stored it returns \<open>False\<close> and the ledger is as before; for a stored
  pair it returns \<open>True\<close> and the pair is gone.
\<close>

theorem remove_favourite_true_iff_deleted:
  assumes "openable s" and "sqlite_int rid"
  shows "fst (remove_favourite name rid s) =
           Inr (length (favourites (snd (remove_favourite name rid s))) < length (favourites s)) \<and>
         (get_user_id name s = Inr None \<longrightarrow> remove_favourite name rid s = (Inr False, s)) \<and>
         (get_user_id name s = Inr (Some uid) \<and> uid \<noteq> 0 \<and> count_fav uid rid s = 0 \<longrightarrow>
            fst (remove_favourite name rid s) = Inr False \<and>
            favourites (snd (remove_favourite name rid s)) = favourites s) \<and>
         (get_user_id name s = Inr (Some uid) \<and> uid \<noteq> 0 \<and> count_fav uid rid s \<noteq> 0 \<longrightarrow>
            fst (remove_favourite name rid s) = Inr True \<and>
            count_fav uid rid (snd (remove_favourite name rid s)) = 0)"
proof -
  obtain v where v: "get_user_id name s = Inr v"
    using assms(1) by (simp add: get_user_id_def)
  have iff: "fst (remove_favourite name rid s) =
           Inr (length (favourites (snd (remove_favourite name rid s))) < length (favourites s))"
    using assms v
    by (cases v) (simp_all add: remove_favourite_def Let_def length_filter_not_less)
  have unknown: "remove_favourite name rid s = (Inr False, s)" if "get_user_id name s = Inr None"
    using that by (simp add: remove_favourite_def)
  have known: "remove_favourite name rid s =
      (Inr (count_fav uid rid s \<noteq> 0),
       s\<lparr>favourites := filter (\<lambda>f. \<not> is_favourite uid rid f) (favourites s)\<rparr>)"
    if "get_user_id name s = Inr (Some uid)" and "uid \<noteq> 0"
    using assms that by (simp add: remove_favourite_def Let_def count_fav_def)
  have none: "filter (\<lambda>f. \<not> is_favourite uid rid f) (favourites s) = favourites s"
    if "count_fav uid rid s = 0"
    using that by (simp add: count_fav_def filter_empty_conv filter_id_conv)
  have gone: "count_fav uid rid (s\<lparr>favourites := filter (\<lambda>f. \<not> is_favourite uid rid f) (favourites s)\<rparr>) = 0"
    by (simp add: count_fav_def)
  from iff unknown known none gone show ?thesis by simp
qed

theorem remove_favourite_true_iff_deleted_witness:
  "openable demo_store \<and> sqlite_int 7 \<and> sqlite_int 8 \<and>
   get_user_id ''mallory'' demo_store = Inr None \<and>
   remove_favourite ''mallory'' 7 demo_store = (Inr False, demo_store) \<and>
   get_user_id ''alice'' demo_store = Inr (Some 1) \<and>
   count_fav 1 8 demo_store = 0 \<and>
   fst (remove_favourite ''alice'' 8 demo_store) = Inr False \<and>
   count_fav 1 7 demo_store \<noteq> 0 \<and>
   fst (remove_favourite ''alice'' 7 demo_store) = Inr True \<and>
   favourites (snd (remove_favourite ''alice'' 7 demo_store)) = []"
proof -
  have o: "openable demo_store" by (simp add: demo_store_def)
  have i: "sqlite_int 7" "sqlite_int 8" by (simp_all add: sqlite_int_def)
  have m: "get_user_id ''mallory'' demo_store = Inr None"
    by (simp add: get_user_id_def demo_store_def)
  have a: "get_user_id ''alice'' demo_store = Inr (Some 1)"
    by (simp add: get_user_id_def demo_store_def)
  have c7: "count_fav 1 7 demo_store \<noteq> 0"
    by (simp add: count_fav_def demo_store_def is_favourite_def)
  have c8: "count_fav 1 8 demo_store = 0"
    by (simp add: count_fav_def demo_store_def is_favourite_def)
  have f: "favourites (snd (remove_favourite ''alice'' 7 demo_store)) = []"
    by (simp add: remove_favourite_def get_user_id_def demo_store_def sqlite_int_def
        is_favourite_def)
  from remove_favourite_true_iff_deleted [OF o i(1), of "''mallory''" 1] m
  have 1: "remove_favourite ''mallory'' 7 demo_store = (Inr False, demo_store)" by simp
  from remove_favourite_true_iff_deleted [OF o i(2), of "''alice''" 1] a c8
  have 2: "fst (remove_favourite ''alice'' 8 demo_store) = Inr False" by simp
  have nz: "(1::int) \<noteq> 0" by simp
  from remove_favourite_true_iff_deleted [OF o i(1), of "''alice''" 1] a c7 nz
  have 3: "fst (remove_favourite ''alice'' 7 demo_store) = Inr True" by blast
  from o i m a c7 c8 f 1 2 3 show ?thesis by simp
qed

text \<open>
  Claim C9.  A recipe id that no row of \<open>recepti\<close> carries can be made a favourite:
  \<open>add_to_favourites\<close> returns \<open>True\<close> and the row is in the ledger.  The listing of the
  user's favourites right afterwards does not show it, and neither does any later listing
  over the same recipe table, because the listing joins the ledger with \<open>recepti\<close>.
\<close>

theorem dangling_favourite_added_but_never_listed:
  assumes "openable s" and "sqlite_int rid"
    and "get_user_id name s = Inr (Some uid)" and "uid \<noteq> 0"
    and "count_fav uid rid s = 0"
    and "recepti s = Some rs" and "rid \<notin> recipe_id ` set rs"
  shows "add_to_favourites name rid s = (Inr True, insert_favourite uid rid s) \<and>
         \<lparr>fav_id = next_rowid (favourites_seq s) (map fav_id (favourites s)),
          fav_user_id = uid, fav_recipe_id = rid\<rparr> \<in> set (favourites (insert_favourite uid rid s)) \<and>
         (\<exists>listing. get_user_favourites name (insert_favourite uid rid s) = Inr listing \<and>
                     rid \<notin> fst ` set listing) \<and>
         (\<forall>t listing. recepti t = Some rs \<and> get_user_favourites name t = Inr listing \<longrightarrow>
                       rid \<notin> fst ` set listing)"
proof -
  let ?s' = "insert_favourite uid rid s"
  have added: "add_to_favourites name rid s = (Inr True, ?s')"
    using add_known_user [OF assms(1-4)] assms(5) by simp
  have stored: "\<lparr>fav_id = next_rowid (favourites_seq s) (map fav_id (favourites s)),
          fav_user_id = uid, fav_recipe_id = rid\<rparr> \<in> set (favourites ?s')"
    by (simp add: insert_favourite_def Let_def)
  have never: "rid \<notin> fst ` set listing"
    if "recepti t = Some rs" and "get_user_favourites name t = Inr listing" for t listing
    using favourites_listing_ids [OF that(2) that(1)] assms(7) by blast
  have r: "recepti ?s' = Some rs"
    using assms(6) by (simp add: insert_favourite_def Let_def)
  obtain listing where l: "get_user_favourites name ?s' = Inr listing"
    using assms(1,3,4) r by (auto simp: get_user_favourites_def)
  with never [OF r] have "rid \<notin> fst ` set listing" by simp
  with l added stored never show ?thesis by blast
qed

theorem dangling_favourite_added_but_never_listed_witness:
  "openable demo_store \<and> sqlite_int 99 \<and> get_user_id ''alice'' demo_store = Inr (Some 1) \<and>
   count_fav 1 99 demo_store = 0 \<and> recepti demo_store = Some [torta, palacinke] \<and>
   99 \<notin> recipe_id ` set [torta, palacinke] \<and>
   add_to_favourites ''alice'' 99 demo_store = (Inr True, insert_favourite 1 99 demo_store) \<and>
   favourites (insert_favourite 1 99 demo_store) =
     [\<lparr>fav_id = 1, fav_user_id = 1, fav_recipe_id = 7\<rparr>,
      \<lparr>fav_id = 2, fav_user_id = 1, fav_recipe_id = 99\<rparr>] \<and>
   get_user_favourites ''alice'' (insert_favourite 1 99 demo_store) = Inr [(7, ''torta.txt'')]"
proof -
  have o: "openable demo_store" by (simp add: demo_store_def)
  have i: "sqlite_int 99" by (simp add: sqlite_int_def)
  have a: "get_user_id ''alice'' demo_store = Inr (Some 1)"
    by (simp add: get_user_id_def demo_store_def)
  have nz: "(1::int) \<noteq> 0" by simp
  have c: "count_fav 1 99 demo_store = 0"
    by (simp add: count_fav_def demo_store_def is_favourite_def)
  have r: "recepti demo_store = Some [torta, palacinke]" by (simp add: demo_store_def)
  have n: "99 \<notin> recipe_id ` set [torta, palacinke]" by (simp add: torta_def palacinke_def)
  have f: "favourites (insert_favourite 1 99 demo_store) =
     [\<lparr>fav_id = 1, fav_user_id = 1, fav_recipe_id = 7\<rparr>,
      \<lparr>fav_id = 2, fav_user_id = 1, fav_recipe_id = 99\<rparr>]"
    by (simp add: insert_favourite_def demo_store_def next_rowid_def)
  have l: "get_user_favourites ''alice'' (insert_favourite 1 99 demo_store) = Inr [(7, ''torta.txt'')]"
    by (simp add: get_user_favourites_def get_user_id_def insert_favourite_def demo_store_def
        next_rowid_def is_favourite_def torta_def palacinke_def)
  from dangling_favourite_added_but_never_listed [OF o i a nz c r n]
  have "add_to_favourites ''alice'' 99 demo_store = (Inr True, insert_favourite 1 99 demo_store)"
    by (rule conjunct1)
  with o i a c r n f l show ?thesis by simp
qed

section \<open>Sharing ledger\<close>

text \<open>
  Claim C4 says that a share to an existing receiver always appends a row.  Two requests
  where it does not: the cookie names a user that is not registered (the NOT NULL
  constraint on \<open>sender_id\<close> rejects the row), and the recipe id does not fit in 64 bits.
\<close>

theorem share_not_unconditional_counterexample:
  "get_user_id ''bob'' demo_store = Inr (Some 2) \<and>
   api_share_recipe \<lparr>sm_recipe_id = 7, sm_receiver = ''bob''\<rparr> (Some ''ghost'') demo_store =
     (Inl IntegrityError, demo_store) \<and>
   api_share_recipe \<lparr>sm_recipe_id = 2 ^ 63, sm_receiver = ''bob''\<rparr> (Some ''alice'') demo_store =
     (Inl OverflowError, demo_store)"
  by (simp add: api_share_recipe_def get_current_username_def get_user_id_def demo_store_def
      insert_share_def sqlite_int_def)

text \<open>
  Claim C4, amended.  When the receiver's name is not in the user store, the route answers
  with the failure body and the store is unchanged.  When the receiver is registered, the
  sender named by the cookie is registered too and the recipe id is a 64-bit integer, one
  row is appended to \<open>shared_recipes\<close>, whatever rows are there already.
\<close>

theorem share_recipe_receiver_checked:
  assumes "openable s" and "name \<noteq> []"
  shows "(get_user_id (sm_receiver data) s = Inr None \<longrightarrow>
            api_share_recipe data (Some name) s = (Inr receiver_missing, s)) \<and>
         (get_user_id (sm_receiver data) s = Inr (Some receiver) \<and> receiver \<noteq> 0 \<and>
          get_user_id name s = Inr (Some sender) \<and> sqlite_int (sm_recipe_id data) \<longrightarrow>
            fst (api_share_recipe data (Some name) s) = Inr share_ok \<and>
            shared_recipes (snd (api_share_recipe data (Some name) s)) =
              shared_recipes s @
              [\<lparr>share_id = next_rowid (shared_seq s) (map share_id (shared_recipes s)),
                sender_id = sender, receiver_id = receiver,
                share_recipe_id = sm_recipe_id data\<rparr>])"
  using assms
  by (auto simp: api_share_recipe_def get_current_username_def get_user_id_def insert_share_def
      Let_def)

theorem share_recipe_receiver_checked_witness:
  "openable demo_store \<and> ''alice'' \<noteq> [] \<and> sqlite_int 7 \<and>
   get_user_id ''nobody'' demo_store = Inr None \<and>
   api_share_recipe \<lparr>sm_recipe_id = 7, sm_receiver = ''nobody''\<rparr> (Some ''alice'') demo_store =
     (Inr receiver_missing, demo_store) \<and>
   get_user_id ''bob'' demo_store = Inr (Some 2) \<and>
   get_user_id ''alice'' demo_store = Inr (Some 1) \<and>
   fst (api_share_recipe \<lparr>sm_recipe_id = 7, sm_receiver = ''bob''\<rparr> (Some ''alice'') demo_store) =
     Inr share_ok \<and>
   shared_recipes
     (snd (api_share_recipe \<lparr>sm_recipe_id = 7, sm_receiver = ''bob''\<rparr> (Some ''alice'') demo_store)) =
     [\<lparr>share_id = 1, sender_id = 1, receiver_id = 2, share_recipe_id = 7\<rparr>]"
proof -
  have o: "openable demo_store" by (simp add: demo_store_def)
  have e: "''alice'' \<noteq> []" by simp
  have i: "sqlite_int 7" by (simp add: sqlite_int_def)
  have n: "get_user_id ''nobody'' demo_store = Inr None"
    by (simp add: get_user_id_def demo_store_def)
  have b: "get_user_id ''bob'' demo_store = Inr (Some 2)"
    by (simp add: get_user_id_def demo_store_def)
  have a: "get_user_id ''alice'' demo_store = Inr (Some 1)"
    by (simp add: get_user_id_def demo_store_def)
  have q: "next_rowid (shared_seq demo_store) (map share_id (shared_recipes demo_store)) = 1"
    by (simp add: next_rowid_def demo_store_def)
  have sr: "shared_recipes demo_store = []" by (simp add: demo_store_def)
  from share_recipe_receiver_checked
         [OF o e, of "\<lparr>sm_recipe_id = 7, sm_receiver = ''nobody''\<rparr>" 0 0] n
  have 1: "api_share_recipe \<lparr>sm_recipe_id = 7, sm_receiver = ''nobody''\<rparr> (Some ''alice'') demo_store =
     (Inr receiver_missing, demo_store)" by simp
  from share_recipe_receiver_checked
         [OF o e, of "\<lparr>sm_recipe_id = 7, sm_receiver = ''bob''\<rparr>" 2 1] a b i q sr
  have 2: "fst (api_share_recipe \<lparr>sm_recipe_id = 7, sm_receiver = ''bob''\<rparr> (Some ''alice'') demo_store) =
     Inr share_ok"
   and 3: "shared_recipes
     (snd (api_share_recipe \<lparr>sm_recipe_id = 7, sm_receiver = ''bob''\<rparr> (Some ''alice'') demo_store)) =
     [\<lparr>share_id = 1, sender_id = 1, receiver_id = 2, share_recipe_id = 7\<rparr>]"
    by simp_all
  from o e i n b a 1 2 3 show ?thesis by simp
qed

text \<open>
  Claim C10.  When the cookie names a user that is not registered and the receiver is
  registered, the sender lookup gives \<open>None\<close>, the insert raises, and the exception leaves
  the route: the result is no response body at all, and the store is unchanged.
\<close>

theorem share_recipe_unknown_sender_raises:
  assumes "openable s" and "name \<noteq> []"
    and "get_user_id name s = Inr None"
    and "get_user_id (sm_receiver data) s = Inr (Some receiver)" and "receiver \<noteq> 0"
  shows "api_share_recipe data (Some name) s =
           (Inl (if sqlite_int (sm_recipe_id data) then IntegrityError else OverflowError), s)"
  using assms
  by (simp add: api_share_recipe_def get_current_username_def insert_share_def)

theorem share_recipe_unknown_sender_raises_witness:
  "openable demo_store \<and> ''ghost'' \<noteq> [] \<and> get_user_id ''ghost'' demo_store = Inr None \<and>
   get_user_id ''bob'' demo_store = Inr (Some 2) \<and>
   api_share_recipe \<lparr>sm_recipe_id = 8, sm_receiver = ''bob''\<rparr> (Some ''ghost'') demo_store =
     (Inl IntegrityError, demo_store)"
proof -
  have o: "openable demo_store" by (simp add: demo_store_def)
  have e: "''ghost'' \<noteq> []" by simp
  have g: "get_user_id ''ghost'' demo_store = Inr None"
    by (simp add: get_user_id_def demo_store_def)
  have b: "get_user_id (sm_receiver \<lparr>sm_recipe_id = 8, sm_receiver = ''bob''\<rparr>) demo_store = Inr (Some 2)"
    by (simp add: get_user_id_def demo_store_def)
  have nz: "(2::int) \<noteq> 0" by simp
  from share_recipe_unknown_sender_raises [OF o e g b nz] o g b
  show ?thesis by (simp add: sqlite_int_def)
qed

end
